theory Spec2Isabelle
  imports Complex_Main
begin

section \<open>Data model of the trading engine (class Bot)\<close>

text \<open>
  The engine is the JavaScript class \<open>Bot\<close>.  Two versions of the class are among the
  sources: the current one (with the Bottleneck limiter, the \<open>paused\<close> flag and a
  per-strategy risk) and an older one (no limiter, an \<open>isFinal\<close> flag in the advice, a
  per-advisor margin).  Definitions without suffix embed the current version, definitions
  with the suffix \<open>_old\<close> embed the older one.

  JavaScript numbers are modelled as real numbers: rounding, \<open>NaN\<close> and the infinities of
  IEEE doubles are outside the model.  Exceptions and rejected promises are values of
  type \<open>error\<close>; a function that may throw returns \<open>error + 'a\<close> with \<open>Inl\<close> the error.
\<close>

datatype error =
    TypeError string
  | Error string

record chart_info =
  baseAsset :: string
  quoteAsset :: string

record chart =
  chart_name :: string
  info :: chart_info

text \<open>
  \<open>risk\<close> is \<open>strategy.config.trade.risk\<close> after \<open>parseFloat\<close>; \<open>None\<close> is the absent
  (or falsy) value, for which the source takes \<open>0\<close>.
\<close>

record strategy =
  strategy_name :: string
  risk :: "real option"

text \<open>\<open>margin\<close> exists only in the older version of class Advisor.\<close>

record advisor =
  advisor_name :: string
  chartIds :: "string list"
  margin :: real

record fund =
  available :: real

record trade =
  trade_id :: string
  advisorId :: string
  chartId :: string
  who :: string
  isLong :: bool
  quantity :: real
  isOpen :: bool

section \<open>Sizing of a LONG or SHORT signal\<close>

text \<open>
  \<open>Array.prototype.filter\<close> with a predicate that may throw: the first exception ends the
  filtering.
\<close>

fun filter_err :: "('a \<Rightarrow> error + bool) \<Rightarrow> 'a list \<Rightarrow> error + 'a list" where
  "filter_err p [] = Inr []"
| "filter_err p (x # xs) =
     (case p x of
        Inl e \<Rightarrow> Inl e
      | Inr b \<Rightarrow>
          (case filter_err p xs of
             Inl e \<Rightarrow> Inl e
           | Inr ys \<Rightarrow> Inr (if b then x # ys else ys)))"

text \<open>\<open>this.charts[trade.chartId].info\<close>: a TypeError when the chart is not registered.\<close>

definition chartInfoOf :: "(string \<rightharpoonup> chart) \<Rightarrow> string \<Rightarrow> error + chart_info" where
  "chartInfoOf cs cid =
     (case cs cid of
        None \<Rightarrow> Inl (TypeError ''Cannot read property info of undefined'')
      | Some c \<Rightarrow> Inr (info c))"

text \<open>
  \<open>trade => trade.isLong && trade.isOpen && this.charts[trade.chartId].info.baseAsset === asset\<close>
\<close>

definition longSellsBack :: "(string \<rightharpoonup> chart) \<Rightarrow> string \<Rightarrow> trade \<Rightarrow> error + bool" where
  "longSellsBack cs asset t =
     (if isLong t \<and> isOpen t
      then (case chartInfoOf cs (chartId t) of
              Inl e \<Rightarrow> Inl e
            | Inr i \<Rightarrow> Inr (baseAsset i = asset))
      else Inr False)"

text \<open>
  \<open>trade => !trade.isLong && trade.isOpen && this.charts[trade.chartId].info.quoteAsset === asset\<close>
\<close>

definition shortSellsBack :: "(string \<rightharpoonup> chart) \<Rightarrow> string \<Rightarrow> trade \<Rightarrow> error + bool" where
  "shortSellsBack cs asset t =
     (if \<not> isLong t \<and> isOpen t
      then (case chartInfoOf cs (chartId t) of
              Inl e \<Rightarrow> Inl e
            | Inr i \<Rightarrow> Inr (quoteAsset i = asset))
      else Inr False)"

definition longsSellingBackAsset :: "(string \<rightharpoonup> chart) \<Rightarrow> trade list \<Rightarrow> string \<Rightarrow> error + trade list" where
  "longsSellingBackAsset cs ts asset = filter_err (longSellsBack cs asset) ts"

definition shortsSellingBackAsset :: "(string \<rightharpoonup> chart) \<Rightarrow> trade list \<Rightarrow> string \<Rightarrow> error + trade list" where
  "shortsSellingBackAsset cs ts asset = filter_err (shortSellsBack cs asset) ts"

text \<open>\<open>xs.reduce((quantity, trade) => quantity + trade.quantity, 0)\<close>\<close>

definition reduceQuantity :: "trade list \<Rightarrow> real" where
  "reduceQuantity ts = foldl (\<lambda>q t. q + quantity t) 0 ts"

definition quantityLockedByTrades :: "(string \<rightharpoonup> chart) \<Rightarrow> trade list \<Rightarrow> string \<Rightarrow> error + real" where
  "quantityLockedByTrades cs ts asset =
     (case longsSellingBackAsset cs ts asset of
        Inl e \<Rightarrow> Inl e
      | Inr ls \<Rightarrow>
          (case shortsSellingBackAsset cs ts asset of
             Inl e \<Rightarrow> Inl e
           | Inr ss \<Rightarrow> Inr (reduceQuantity ls + reduceQuantity ss)))"

text \<open>\<open>(this.funds[asset] && this.funds[asset].available) || 0\<close>\<close>

definition fundsAvailable :: "(string \<rightharpoonup> fund) \<Rightarrow> string \<Rightarrow> real" where
  "fundsAvailable fs asset = (case fs asset of None \<Rightarrow> 0 | Some f \<Rightarrow> available f)"

text \<open>\<open>isLong ? chart.info.quoteAsset : chart.info.baseAsset\<close>\<close>

definition settlementAsset :: "chart \<Rightarrow> bool \<Rightarrow> string" where
  "settlementAsset c long = (if long then quoteAsset (info c) else baseAsset (info c))"

text \<open>\<open>funds = available - quantityLockedByTrades\<close>, the capital the sizing starts from.\<close>

definition sizingFunds ::
  "(string \<rightharpoonup> chart) \<Rightarrow> (string \<rightharpoonup> fund) \<Rightarrow> trade list \<Rightarrow> string \<Rightarrow> error + real" where
  "sizingFunds cs fs ts asset =
     (case quantityLockedByTrades cs ts asset of
        Inl e \<Rightarrow> Inl e
      | Inr locked \<Rightarrow> Inr (fundsAvailable fs asset - locked))"

text \<open>\<open>parseFloat(strategy.config.trade.risk || 0)\<close>\<close>

definition riskOf :: "strategy \<Rightarrow> real" where
  "riskOf st = (case risk st of None \<Rightarrow> 0 | Some r \<Rightarrow> r)"

text \<open>\<open>amount = (funds * parseFloat(strategy.config.trade.risk || 0)) / 100\<close>\<close>

definition sizingAmount ::
  "(string \<rightharpoonup> chart) \<Rightarrow> (string \<rightharpoonup> fund) \<Rightarrow> trade list \<Rightarrow> chart \<Rightarrow> strategy \<Rightarrow> bool \<Rightarrow> error + real" where
  "sizingAmount cs fs ts c st long =
     (case sizingFunds cs fs ts (settlementAsset c long) of
        Inl e \<Rightarrow> Inl e
      | Inr f \<Rightarrow> Inr ((f * riskOf st) / 100))"

text \<open>Older version: \<open>amount = funds * advisor.margin\<close>.\<close>

definition sizingAmount_old ::
  "(string \<rightharpoonup> chart) \<Rightarrow> (string \<rightharpoonup> fund) \<Rightarrow> trade list \<Rightarrow> chart \<Rightarrow> advisor \<Rightarrow> bool \<Rightarrow> error + real" where
  "sizingAmount_old cs fs ts c adv long =
     (case sizingFunds cs fs ts (settlementAsset c long) of
        Inl e \<Rightarrow> Inl e
      | Inr f \<Rightarrow> Inr (f * margin adv))"

section \<open>Positions (class Trade)\<close>

text \<open>
  Positions are objects held in the array \<open>this.trades\<close>; they are never removed from
  it, so a position is identified by its index.  Leaving the open state is the in-place
  update \<open>trade.isOpen = false\<close>.
\<close>

definition markClosed :: "nat \<Rightarrow> trade list \<Rightarrow> trade list" where
  "markClosed i ts = (if i < length ts then ts[i := (ts ! i)\<lparr>isOpen := False\<rparr>] else ts)"

fun markAllClosed :: "nat list \<Rightarrow> trade list \<Rightarrow> trade list" where
  "markAllClosed [] ts = ts"
| "markAllClosed (i # is) ts = markAllClosed is (markClosed i ts)"

text \<open>\<open>Array.prototype.find\<close>, returning the index of the first match.\<close>

fun findIndex :: "('a \<Rightarrow> bool) \<Rightarrow> 'a list \<Rightarrow> nat option" where
  "findIndex p [] = None"
| "findIndex p (x # xs) = (if p x then Some 0 else map_option Suc (findIndex p xs))"

text \<open>The template literal \<open>`T${this.trades.length + 1}`\<close>.\<close>

fun digitsOf :: "nat \<Rightarrow> string" where
  "digitsOf n =
     (if n < 10 then [''0123456789'' ! n]
      else digitsOf (n div 10) @ [''0123456789'' ! (n mod 10)])"

declare digitsOf.simps [simp del]

definition tradeId :: "nat \<Rightarrow> string" where
  "tradeId n = ''T'' @ digitsOf n"

datatype entry = EntryFilled | EntryAbandoned | EntryRejected error

datatype exit = ExitFilled | ExitRejected error

text \<open>
  Modelled from the spec: \<open>Trade.initialize\<close> (class Trade is not among the sources).
  A position carries the id, advisor id, chart id, label, direction and quantity it was
  created with.  The entry order either succeeds, and the position is open; or it fails
  and the attempt is abandoned (no position is returned: a falsy value) or the promise is
  rejected.
\<close>

definition Trade_initialize ::
  "entry \<Rightarrow> string \<Rightarrow> string \<Rightarrow> string \<Rightarrow> bool \<Rightarrow> real \<Rightarrow> string \<Rightarrow> error + trade option" where
  "Trade_initialize en aid cid tid long q wh =
     (case en of
        EntryFilled \<Rightarrow>
          Inr (Some \<lparr>trade_id = tid, advisorId = aid, chartId = cid, who = wh,
                     isLong = long, quantity = q, isOpen = True\<rparr>)
      | EntryAbandoned \<Rightarrow> Inr None
      | EntryRejected e \<Rightarrow> Inl e)"

text \<open>
  Modelled from the spec: \<open>trade.close(reason)\<close> (class Trade is not among the sources).
  The exit order either succeeds, and the position is closed, or it fails: the error is
  reported and the position stays open.
\<close>

definition Trade_close :: "exit \<Rightarrow> nat \<Rightarrow> trade list \<Rightarrow> error + trade list" where
  "Trade_close ex i ts =
     (case ex of
        ExitFilled \<Rightarrow> Inr (markClosed i ts)
      | ExitRejected e \<Rightarrow> Inl e)"

section \<open>The engine state and its collaborators\<close>

text \<open>
  Three components of the state are not fields of the source: \<open>calls\<close> is the trace of
  the calls the engine makes on its collaborators (exchange adapter, positions, advisors,
  the process); \<open>now\<close> is the clock in milliseconds and \<open>liveTimers\<close> are the deadlines of
  the subscribed unpause timers.  \<open>unpause\<close> is the deadline of the timer subscription that
  \<open>this.unpause\<close> refers to.
\<close>

datatype call =
    ClampQuantity real chart_info bool
  | TradeInitialize string string bool real
  | TradeClose nat string
  | AdvisorAnalyze string string bool
  | ProcessExit

record log =
  level :: string
  message :: string

record bot =
  advisors :: "(string \<times> advisor) list"
  charts :: "string \<rightharpoonup> chart"
  funds :: "string \<rightharpoonup> fund"
  logs :: "log list"
  paused :: bool
  trades :: "trade list"
  unpause :: "nat option"
  currentMode :: string
  quitting :: bool
  calls :: "call list"
  now :: nat
  liveTimers :: "nat list"

text \<open>
  What the collaborators answer during one run of a job: the exchange adapter's
  \<open>clampQuantity\<close>, the outcome of the entry order of \<open>Trade.initialize\<close>, the outcome of
  the exit order of position \<open>i\<close>, and the positions that leave the open state by their own
  triggers (stop, target, time to live) while the job awaits \<open>clampQuantity\<close> and while it
  awaits \<open>Trade.initialize\<close>.
\<close>

record world =
  clampQuantity :: "real \<Rightarrow> chart_info \<Rightarrow> bool \<Rightarrow> error + real"
  entryOrder :: entry
  exitOrder :: "nat \<Rightarrow> exit"
  closedWhileClamping :: "nat list"
  closedWhileEntering :: "nat list"

text \<open>How a promise ends: it resolves, it is rejected, or it is never settled.\<close>

datatype settle = Resolved | Rejected error | Pending

text \<open>\<open>this.log(event)\<close>: \<open>new Log(event)\<close> is pushed on \<open>this.logs\<close>.\<close>

definition errorToString :: "error \<Rightarrow> string" where
  "errorToString e = (case e of TypeError m \<Rightarrow> m | Error m \<Rightarrow> m)"

definition logError :: "error \<Rightarrow> bot \<Rightarrow> bot" where
  "logError e b = b\<lparr>logs := logs b @ [\<lparr>level = ''error'', message = errorToString e\<rparr>]\<rparr>"

definition logEvent :: "string \<Rightarrow> string \<Rightarrow> bot \<Rightarrow> bot" where
  "logEvent l m b = b\<lparr>logs := logs b @ [\<lparr>level = l, message = m\<rparr>]\<rparr>"

definition called :: "call \<Rightarrow> bot \<Rightarrow> bot" where
  "called c b = b\<lparr>calls := calls b @ [c]\<rparr>"

section \<open>Signal digestion\<close>

text \<open>
  The predicate of
  \<open>this.trades.find(trade => trade.advisorId === advisorId && trade.chartId === chartId && trade.isOpen)\<close>.
\<close>

definition openFor :: "string \<Rightarrow> string \<Rightarrow> trade \<Rightarrow> bool" where
  "openFor aid cid t = (advisorId t = aid \<and> chartId t = cid \<and> isOpen t)"

text \<open>
  The predicate of the \<open>find\<close> of the close branch, which also compares \<open>trade.who\<close>.
\<close>

definition openForWho :: "string \<Rightarrow> string \<Rightarrow> string \<Rightarrow> trade \<Rightarrow> bool" where
  "openForWho aid cid wh t = (advisorId t = aid \<and> chartId t = cid \<and> who t = wh \<and> isOpen t)"

text \<open>
  Branch \<open>case 'CLOSE LONG': case 'CLOSE SHORT':\<close> of the job: the first open position
  of the advisor, chart and label is closed with reason \<open>signal\<close> when its direction is
  the one the signal closes; a failing close rejects the job.
\<close>

definition closeOnSignal :: "world \<Rightarrow> string \<Rightarrow> string \<Rightarrow> string \<Rightarrow> string \<Rightarrow> bot \<Rightarrow> settle \<times> bot" where
  "closeOnSignal w aid cid wh signal b =
     (case findIndex (openForWho aid cid wh) (trades b) of
        None \<Rightarrow> (Resolved, b)
      | Some i \<Rightarrow>
          if (signal = ''CLOSE LONG'' \<and> isLong (trades b ! i))
             \<or> (signal = ''CLOSE SHORT'' \<and> \<not> isLong (trades b ! i))
          then
            (case Trade_close (exitOrder w i) i (trades b) of
               Inl e \<Rightarrow> (Rejected e, called (TradeClose i ''signal'') b)
             | Inr ts \<Rightarrow> (Resolved, (called (TradeClose i ''signal'') b)\<lparr>trades := ts\<rparr>))
          else (Resolved, b))"

text \<open>
  Branch \<open>case 'LONG': case 'SHORT':\<close> of the job.  The amount is computed from the
  ledger and the open positions, the exchange adapter clamps it, and a position is
  created when the clamped quantity is positive and no position of the advisor and chart
  is open.  Every exception of the branch rejects the job.
\<close>

definition openOnSignal ::
  "world \<Rightarrow> string \<Rightarrow> string \<Rightarrow> chart \<Rightarrow> strategy \<Rightarrow> string \<Rightarrow> bool \<Rightarrow> bot \<Rightarrow> settle \<times> bot" where
  "openOnSignal w aid cid c st wh long b =
     (case sizingAmount (charts b) (funds b) (trades b) c st long of
        Inl e \<Rightarrow> (Rejected e, b)
      | Inr amount \<Rightarrow>
          (let b1 = (called (ClampQuantity amount (info c) long) b)
                      \<lparr>trades := markAllClosed (closedWhileClamping w) (trades b)\<rparr>
           in case clampQuantity w amount (info c) long of
                Inl e \<Rightarrow> (Rejected e, b1)
              | Inr q \<Rightarrow>
                  if q > 0 \<and> findIndex (openFor aid cid) (trades b1) = None
                  then
                    (let tid = tradeId (length (trades b1) + 1);
                         b2 = (called (TradeInitialize aid cid long q) b1)
                                \<lparr>trades := markAllClosed (closedWhileEntering w) (trades b1)\<rparr>
                     in case Trade_initialize (entryOrder w) aid cid tid long q wh of
                          Inl e \<Rightarrow> (Rejected e, b2)
                        | Inr None \<Rightarrow> (Resolved, b2)
                        | Inr (Some t) \<Rightarrow> (Resolved, b2\<lparr>trades := trades b2 @ [t]\<rparr>))
                  else (Resolved, b1)))"

text \<open>The job scheduled for one signal: the \<open>switch (signal)\<close>.\<close>

definition digestSignal ::
  "world \<Rightarrow> string \<Rightarrow> string \<Rightarrow> chart \<Rightarrow> strategy \<Rightarrow> string \<Rightarrow> string \<Rightarrow> bot \<Rightarrow> settle \<times> bot" where
  "digestSignal w aid cid c st wh signal b =
     (if signal = ''CLOSE LONG'' \<or> signal = ''CLOSE SHORT''
      then closeOnSignal w aid cid wh signal b
      else if signal = ''LONG'' \<or> signal = ''SHORT''
      then openOnSignal w aid cid c st wh (signal = ''LONG'') b
      else (Rejected (Error (''Unable to process signal '' @ signal @ '' from '' @ strategy_name st)), b))"

section \<open>Advice: from the notification to the jobs\<close>

text \<open>The arrow of the label \<open>who\<close> (U+2192, three bytes in UTF-8).\<close>

definition arrow :: string where
  "arrow = [CHR 0xE2, CHR 0x86, CHR 0x92]"

record payload =
  p_advisorId :: string
  p_chartId :: string
  signals :: "string list"
  strategy :: strategy

text \<open>
  The limiter (\<open>maxConcurrent: 1\<close>) runs one job at a time, in the order of scheduling:
  the jobs of one advice run one after the other, job \<open>k\<close> in the world \<open>ws k\<close>.
\<close>

fun runJobs ::
  "(nat \<Rightarrow> world) \<Rightarrow> nat \<Rightarrow> string \<Rightarrow> string \<Rightarrow> chart \<Rightarrow> strategy \<Rightarrow> string \<Rightarrow> string list \<Rightarrow> bot
   \<Rightarrow> settle list \<times> bot" where
  "runJobs ws k aid cid c st wh [] b = ([], b)"
| "runJobs ws k aid cid c st wh (s # ss) b =
     (case digestSignal (ws k) aid cid c st wh s b of
        (r, b1) \<Rightarrow>
          (case runJobs ws (Suc k) aid cid c st wh ss b1 of
             (rs, b2) \<Rightarrow> (r # rs, b2)))"

text \<open>
  \<open>digestAdvice\<close>: the label is built from the advisor, the chart and the strategy (a
  TypeError when the advisor or the chart is not registered), and one job per signal is
  scheduled on the limiter.
\<close>

definition digestAdvice :: "(nat \<Rightarrow> world) \<Rightarrow> payload \<Rightarrow> bot \<Rightarrow> error + settle list \<times> bot" where
  "digestAdvice ws p b =
     (case map_of (advisors b) (p_advisorId p) of
        None \<Rightarrow> Inl (TypeError ''Cannot read property name of undefined'')
      | Some adv \<Rightarrow>
          (case charts b (p_chartId p) of
             None \<Rightarrow> Inl (TypeError ''Cannot read property name of undefined'')
           | Some c \<Rightarrow>
               Inr (runJobs ws 0 (p_advisorId p) (p_chartId p) c (strategy p)
                      (advisor_name adv @ arrow @ chart_name c @ arrow @ strategy_name (strategy p))
                      (signals p) b)))"

text \<open>
  \<open>Promise.all\<close> over promises that settle in the order of the list: rejected with the
  first rejection, resolved when all are resolved.
\<close>

fun promiseAll :: "settle list \<Rightarrow> settle" where
  "promiseAll [] = Resolved"
| "promiseAll (Rejected e # rs) = Rejected e"
| "promiseAll (Resolved # rs) = promiseAll rs"
| "promiseAll (Pending # rs) = (case promiseAll rs of Rejected e \<Rightarrow> Rejected e | _ \<Rightarrow> Pending)"

section \<open>Analysis of a chart\<close>

record candleData =
  cd_chartId :: string
  candles :: "real list"
  isFinal :: bool

record advice =
  a_signals :: "string list"
  a_strategy :: strategy

text \<open>
  \<open>advisor.analyze(candles, chart.config.strategies, isFinal, who)\<close> belongs to class
  Advisor, a collaborator: it is a parameter of the model.  It answers one advice or a
  falsy value per strategy, or fails.
\<close>

type_synonym analysis = "advisor \<Rightarrow> real list \<Rightarrow> chart \<Rightarrow> bool \<Rightarrow> string \<Rightarrow> error + advice option list"

definition toPayload :: "string \<Rightarrow> string \<Rightarrow> advice \<Rightarrow> payload" where
  "toPayload aid cid a =
     \<lparr>p_advisorId = aid, p_chartId = cid, signals = a_signals a, strategy = a_strategy a\<rparr>"

text \<open>
  The body of \<open>Object.keys(this.advisors).map(async advisorId => ...)\<close>, advisor by
  advisor in the order of the keys; the result lists the payloads of the
  \<open>DIGEST_ADVICE\<close> notifications that are emitted.  An unregistered chart is a TypeError
  outside the \<open>try\<close>, in an async callback: nothing is emitted.
\<close>

fun analyzeAdvisors :: "analysis \<Rightarrow> (string \<times> advisor) list \<Rightarrow> candleData \<Rightarrow> bot \<Rightarrow> payload list \<times> bot" where
  "analyzeAdvisors an [] cd b = ([], b)"
| "analyzeAdvisors an ((aid, adv) # rest) cd b =
     (case (if cd_chartId cd \<in> set (chartIds adv)
            then (case charts b (cd_chartId cd) of
                    None \<Rightarrow> ([], b)
                  | Some c \<Rightarrow>
                      (case an adv (candles cd) c (isFinal cd) (advisor_name adv @ arrow @ chart_name c) of
                         Inl e \<Rightarrow> ([], logError e (called (AdvisorAnalyze aid (cd_chartId cd) (isFinal cd)) b))
                       | Inr advs \<Rightarrow>
                           (map (toPayload aid (cd_chartId cd)) (List.map_filter (\<lambda>a. a) advs),
                            called (AdvisorAnalyze aid (cd_chartId cd) (isFinal cd)) b)))
            else ([], b)) of
        (ps, b1) \<Rightarrow>
          (case analyzeAdvisors an rest cd b1 of
             (qs, b2) \<Rightarrow> (ps @ qs, b2)))"

definition analyzeChart :: "analysis \<Rightarrow> candleData \<Rightarrow> bot \<Rightarrow> payload list \<times> bot" where
  "analyzeChart an cd b = (if \<not> paused b then analyzeAdvisors an (advisors b) cd b else ([], b))"

section \<open>Notifications\<close>

datatype notification =
    ANALYZE_CHART candleData
  | DIGEST_ADVICE payload
  | RESUBSCRIBE_TRADES_TO_NEW_STREAM string
  | OtherNotification string

text \<open>
  \<open>processNotification\<close>: everything is inside a \<open>try\<close> whose \<open>catch\<close> logs the error.
  The result lists the payloads of the notifications emitted meanwhile.
\<close>

definition processNotification ::
  "analysis \<Rightarrow> (nat \<Rightarrow> world) \<Rightarrow> notification \<Rightarrow> bot \<Rightarrow> payload list \<times> bot" where
  "processNotification an ws n b =
     (case n of
        ANALYZE_CHART cd \<Rightarrow> analyzeChart an cd b
      | DIGEST_ADVICE p \<Rightarrow>
          ([], (case digestAdvice ws p b of
                  Inl e \<Rightarrow> logError e b
                | Inr (rs, b1) \<Rightarrow>
                    (case promiseAll rs of
                       Rejected e \<Rightarrow> logError e b1
                     | _ \<Rightarrow> b1)))
      | RESUBSCRIBE_TRADES_TO_NEW_STREAM cid \<Rightarrow> ([], b)
      | OtherNotification ty \<Rightarrow> ([], b))"

text \<open>
  The emitted \<open>DIGEST_ADVICE\<close> notifications reach \<open>processNotification\<close> in the order of
  emission; the jobs of the \<open>k\<close>-th of them run in the worlds \<open>ws k\<close>.
\<close>

fun digestAll :: "analysis \<Rightarrow> (nat \<Rightarrow> nat \<Rightarrow> world) \<Rightarrow> nat \<Rightarrow> payload list \<Rightarrow> bot \<Rightarrow> bot" where
  "digestAll an ws k [] b = b"
| "digestAll an ws k (p # ps) b =
     digestAll an ws (Suc k) ps (snd (processNotification an (ws k) (DIGEST_ADVICE p) b))"

definition notify :: "analysis \<Rightarrow> (nat \<Rightarrow> nat \<Rightarrow> world) \<Rightarrow> notification \<Rightarrow> bot \<Rightarrow> bot" where
  "notify an ws n b =
     (case processNotification an (ws 0) n b of
        (ps, b1) \<Rightarrow> digestAll an ws 1 ps b1)"

section \<open>Closing every open position\<close>

text \<open>
  When the promise of \<open>trade.close('expire')\<close> settles: after so many milliseconds with
  the outcome of the exit order, or never.
\<close>

datatype timed = SettlesAt nat exit | NeverSettles

datatype outcome = FulfilledAt nat | RejectedAt nat error | NeverSettled

text \<open>\<open>this.trades.filter(trade => trade.isOpen)\<close>, as indices.\<close>

definition openIndices :: "trade list \<Rightarrow> nat list" where
  "openIndices ts = filter (\<lambda>i. isOpen (ts ! i)) [0..<length ts]"

fun earliestRejection :: "timed list \<Rightarrow> (nat \<times> error) option" where
  "earliestRejection [] = None"
| "earliestRejection (SettlesAt t (ExitRejected e) # xs) =
     (case earliestRejection xs of
        None \<Rightarrow> Some (t, e)
      | Some (t', e') \<Rightarrow> if t' < t then Some (t', e') else Some (t, e))"
| "earliestRejection (x # xs) = earliestRejection xs"

fun latestFulfilment :: "timed list \<Rightarrow> nat option" where
  "latestFulfilment [] = Some 0"
| "latestFulfilment (SettlesAt t ex # xs) = map_option (max t) (latestFulfilment xs)"
| "latestFulfilment (NeverSettles # xs) = None"

text \<open>
  \<open>Promise.all\<close> over promises that settle at given times: rejected at the earliest
  rejection; otherwise fulfilled when the last one is fulfilled, which is never when one
  of them never settles.
\<close>

definition promiseAllTimed :: "timed list \<Rightarrow> outcome" where
  "promiseAllTimed xs =
     (case earliestRejection xs of
        Some (t, e) \<Rightarrow> RejectedAt t e
      | None \<Rightarrow>
          (case latestFulfilment xs of
             Some t \<Rightarrow> FulfilledAt t
           | None \<Rightarrow> NeverSettled))"

fun fills :: "timed \<Rightarrow> bool" where
  "fills (SettlesAt t ExitFilled) = True"
| "fills x = False"

text \<open>
  The positions whose exit order has succeeded by the time \<open>T\<close> are closed (see
  \<open>Trade_close\<close>).
\<close>

fun closedBy :: "(nat \<Rightarrow> timed) \<Rightarrow> nat \<Rightarrow> nat list \<Rightarrow> trade list \<Rightarrow> trade list" where
  "closedBy xw T [] ts = ts"
| "closedBy xw T (i # is) ts =
     closedBy xw T is
       (case xw i of
          SettlesAt t ExitFilled \<Rightarrow> if t \<le> T then markClosed i ts else ts
        | _ \<Rightarrow> ts)"

text \<open>
  \<open>closeTrades\<close>: \<open>close('expire')\<close> is called on every open position, and the promise
  settles as the \<open>Promise.all\<close> of the closures does.  The state is the one at that moment
  (when it never settles: once every closure that settles has settled).
\<close>

definition closeTrades :: "(nat \<Rightarrow> timed) \<Rightarrow> bot \<Rightarrow> outcome \<times> bot" where
  "closeTrades xw b =
     (let is = openIndices (trades b);
          r = promiseAllTimed (map xw is);
          b1 = b\<lparr>calls := calls b @ map (\<lambda>i. TradeClose i ''expire'') is\<rparr>
      in case r of
           FulfilledAt T \<Rightarrow> (r, b1\<lparr>trades := closedBy xw T is (trades b)\<rparr>)
         | RejectedAt T e \<Rightarrow> (r, b1\<lparr>trades := closedBy xw T is (trades b)\<rparr>)
         | NeverSettled \<Rightarrow> (r, b1\<lparr>trades := markAllClosed (filter (\<lambda>i. fills (xw i)) is) (trades b)\<rparr>))"

section \<open>Key presses\<close>

text \<open>
  The branches of \<open>handleKeyPress\<close> that act on trading: \<open>p\<close> (pause), \<open>q\<close> (quit
  screen), \<open>k\<close> (close-all screen) and \<open>y\<close> (yes).  The other keys only move between
  the screens of the user interface and are not modelled; rendering is not modelled.
\<close>

text \<open>The ellipsis of the message \<open>Exiting...\<close> (U+2026, three bytes in UTF-8).\<close>

definition ellipsis :: string where
  "ellipsis = [CHR 0xE2, CHR 0x80, CHR 0xA6]"

text \<open>\<open>timer(1000 * 60 * 60 * 24)\<close>\<close>

definition unpauseDelay :: nat where
  "unpauseDelay = 1000 * 60 * 60 * 24"

definition keyPress_p :: "bot \<Rightarrow> bot" where
  "keyPress_p b =
     (let b1 = b\<lparr>paused := \<not> paused b\<rparr>;
          b2 = logEvent ''info'' (if paused b1 then ''Trading paused'' else ''Trading unpaused'') b1
      in if paused b2
         then b2\<lparr>unpause := Some (now b2 + unpauseDelay),
                 liveTimers := liveTimers b2 @ [now b2 + unpauseDelay]\<rparr>
         else (case unpause b2 of
                 Some d \<Rightarrow> b2\<lparr>liveTimers := remove1 d (liveTimers b2)\<rparr>
               | None \<Rightarrow> b2))"

text \<open>The callback of the unpause timer with deadline \<open>d\<close>.\<close>

definition unpauseTimerFires :: "nat \<Rightarrow> bot \<Rightarrow> bot" where
  "unpauseTimerFires d b =
     logEvent ''info'' ''Trading unpaused'' (b\<lparr>paused := False, liveTimers := remove1 d (liveTimers b)\<rparr>)"

text \<open>Time passes: the clock advances and the timers that are due fire.\<close>

definition elapse :: "nat \<Rightarrow> bot \<Rightarrow> bot" where
  "elapse dt b =
     (let b1 = b\<lparr>now := now b + dt\<rparr>
      in foldl (\<lambda>s d. unpauseTimerFires d s) b1 (filter (\<lambda>d. d \<le> now b1) (liveTimers b1)))"

definition keyPress_q :: "bot \<Rightarrow> bot" where
  "keyPress_q b = b\<lparr>currentMode := ''q''\<rparr>"

definition keyPress_k :: "bot \<Rightarrow> bot" where
  "keyPress_k b = (if openIndices (trades b) \<noteq> [] then b\<lparr>currentMode := ''k''\<rparr> else b)"

text \<open>
  \<open>case 'y'\<close>.  The first component of the result is the moment (in milliseconds after
  the key press) at which \<open>process.exit()\<close> is called, if it is.
\<close>

definition keyPress_y :: "(nat \<Rightarrow> timed) \<Rightarrow> bot \<Rightarrow> nat option \<times> bot" where
  "keyPress_y xw b =
     (if currentMode b = ''k''
      then (case closeTrades xw (b\<lparr>currentMode := ''t''\<rparr>) of
              (RejectedAt T e, b1) \<Rightarrow> (None, logError e b1)
            | (r, b1) \<Rightarrow> (None, b1))
      else if currentMode b = ''q''
      then (case closeTrades xw (logEvent ''info'' (''Exiting'' @ ellipsis) b) of
              (FulfilledAt T, b1) \<Rightarrow> (Some T, called ProcessExit b1)
            | (RejectedAt T e, b1) \<Rightarrow> (None, logError e b1)
            | (NeverSettled, b1) \<Rightarrow> (None, b1))
      else (None, b))"

text \<open>
  Older version of \<open>case 'y'\<close>: guarded by \<open>this.quitting\<close>; when positions were open,
  \<open>Exiting...\<close> is logged after the closures and the exit waits \<open>timer(2000)\<close>.
\<close>

definition keyPress_y_old :: "(nat \<Rightarrow> timed) \<Rightarrow> bot \<Rightarrow> nat option \<times> bot" where
  "keyPress_y_old xw b =
     (if quitting b
      then (case closeTrades xw b of
              (FulfilledAt T, b1) \<Rightarrow>
                if openIndices (trades b) \<noteq> []
                then (Some (T + 2000), called ProcessExit (logEvent ''info'' (''Exiting'' @ ellipsis) b1))
                else (Some T, called ProcessExit b1)
            | (RejectedAt T e, b1) \<Rightarrow> (None, logError e b1)
            | (NeverSettled, b1) \<Rightarrow> (None, b1))
      else (None, b))"

section \<open>Older version of the digestion\<close>

record advice_old =
  o_advisorId :: string
  o_chartId :: string
  o_isFinal :: bool
  o_signal :: string
  o_strategy :: strategy

text \<open>
  Older \<open>digestAdvice\<close>: one signal per advice, no limiter, \<open>isFinal\<close> in the advice.
  The body is an async promise executor: an exception outside its \<open>try\<close> blocks, and
  every path that ends in \<open>break\<close>, leave the promise unsettled.  The result of
  \<open>Trade.initialize\<close> is pushed without a test; the older \<open>Trade.initialize\<close> is taken to
  resolve to an open position (\<open>en = None\<close>) or to reject (\<open>en = Some e\<close>).  An
  unrecognized signal resolves.
\<close>

definition digestAdvice_old :: "world \<Rightarrow> error option \<Rightarrow> advice_old \<Rightarrow> bot \<Rightarrow> settle \<times> bot" where
  "digestAdvice_old w en a b =
     (case map_of (advisors b) (o_advisorId a) of
        None \<Rightarrow> (Pending, b)
      | Some adv \<Rightarrow>
          (case charts b (o_chartId a) of
             None \<Rightarrow> (Pending, b)
           | Some c \<Rightarrow>
               (let wh = advisor_name adv @ ''->'' @ chart_name c @ ''->'' @ strategy_name (o_strategy a)
                in if o_signal a = ''CLOSE LONG'' \<or> o_signal a = ''CLOSE SHORT''
                   then
                     (case findIndex (openForWho (o_advisorId a) (o_chartId a) wh) (trades b) of
                        None \<Rightarrow> (Pending, b)
                      | Some i \<Rightarrow>
                          if (o_signal a = ''CLOSE LONG'' \<and> isLong (trades b ! i))
                             \<or> (o_signal a = ''CLOSE SHORT'' \<and> \<not> isLong (trades b ! i))
                          then
                            (case Trade_close (exitOrder w i) i (trades b) of
                               Inl e \<Rightarrow> (Rejected e, called (TradeClose i ''signal'') b)
                             | Inr ts \<Rightarrow> (Resolved, (called (TradeClose i ''signal'') b)\<lparr>trades := ts\<rparr>))
                          else (Pending, b))
                   else if o_signal a = ''LONG'' \<or> o_signal a = ''SHORT''
                   then
                     (if o_isFinal a
                      then
                        (case sizingAmount_old (charts b) (funds b) (trades b) c adv (o_signal a = ''LONG'') of
                           Inl e \<Rightarrow> (Pending, b)
                         | Inr amount \<Rightarrow>
                             (let b1 = (called (ClampQuantity amount (info c) (o_signal a = ''LONG'')) b)
                                         \<lparr>trades := markAllClosed (closedWhileClamping w) (trades b)\<rparr>
                              in case clampQuantity w amount (info c) (o_signal a = ''LONG'') of
                                   Inl e \<Rightarrow> (Pending, b1)
                                 | Inr q \<Rightarrow>
                                     if q > 0 \<and> findIndex (openFor (o_advisorId a) (o_chartId a)) (trades b1) = None
                                     then
                                       (let b2 = (called (TradeInitialize (o_advisorId a) (o_chartId a) (o_signal a = ''LONG'') q) b1)
                                                   \<lparr>trades := markAllClosed (closedWhileEntering w) (trades b1)\<rparr>
                                        in case en of
                                             Some e \<Rightarrow> (Rejected e, b2)
                                           | None \<Rightarrow>
                                               (Resolved,
                                                b2\<lparr>trades := trades b2 @
                                                      [\<lparr>trade_id = [], advisorId = o_advisorId a, chartId = o_chartId a,
                                                        who = wh, isLong = (o_signal a = ''LONG''), quantity = q,
                                                        isOpen = True\<rparr>]\<rparr>))
                                     else (Pending, b1)))
                      else (Pending, b))
                   else (Resolved, b))))"

section \<open>Startup\<close>

text \<open>The values a configuration can hold.\<close>

datatype jsval =
    JUndefined
  | JNull
  | JBool bool
  | JNum real
  | JStr string
  | JArr "jsval list"
  | JObj "(string \<times> jsval) list"

text \<open>\<open>typeof v === 'object'\<close> (true of \<open>null\<close> and of arrays too).\<close>

fun typeofObject :: "jsval \<Rightarrow> bool" where
  "typeofObject JNull = True"
| "typeofObject (JArr xs) = True"
| "typeofObject (JObj kvs) = True"
| "typeofObject v = False"

fun isArray :: "jsval \<Rightarrow> bool" where
  "isArray (JArr xs) = True"
| "isArray v = False"

fun truthy :: "jsval \<Rightarrow> bool" where
  "truthy JUndefined = False"
| "truthy JNull = False"
| "truthy (JBool b) = b"
| "truthy (JNum r) = (r \<noteq> 0)"
| "truthy (JStr s) = (s \<noteq> [])"
| "truthy (JArr xs) = True"
| "truthy (JObj kvs) = True"

text \<open>
  \<open>v[k]\<close> for a key that is an own property of objects only; reading a property of
  \<open>null\<close> or \<open>undefined\<close> throws.
\<close>

fun getProp :: "jsval \<Rightarrow> string \<Rightarrow> error + jsval" where
  "getProp JUndefined k = Inl (TypeError (''Cannot read property '' @ k @ '' of undefined''))"
| "getProp JNull k = Inl (TypeError (''Cannot read property '' @ k @ '' of null''))"
| "getProp (JObj kvs) k = Inr (case map_of kvs k of None \<Rightarrow> JUndefined | Some v \<Rightarrow> v)"
| "getProp v k = Inr JUndefined"

text \<open>A default of a destructuring pattern: it replaces \<open>undefined\<close>.\<close>

definition orDefault :: "jsval \<Rightarrow> jsval \<Rightarrow> jsval" where
  "orDefault v d = (if v = JUndefined then d else v)"

text \<open>\<open>typeof v !== 'string' || !v.length\<close>\<close>

fun notNonEmptyString :: "jsval \<Rightarrow> bool" where
  "notNonEmptyString (JStr s) = (s = [])"
| "notNonEmptyString v = True"

text \<open>\<open>s.charAt(0).toUpperCase() + s.slice(1).toLowerCase()\<close>, on ASCII letters.\<close>

definition upperChar :: "char \<Rightarrow> char" where
  "upperChar c =
     (case map_of (zip ''abcdefghijklmnopqrstuvwxyz'' ''ABCDEFGHIJKLMNOPQRSTUVWXYZ'') c of
        None \<Rightarrow> c
      | Some u \<Rightarrow> u)"

definition lowerChar :: "char \<Rightarrow> char" where
  "lowerChar c =
     (case map_of (zip ''ABCDEFGHIJKLMNOPQRSTUVWXYZ'' ''abcdefghijklmnopqrstuvwxyz'') c of
        None \<Rightarrow> c
      | Some l \<Rightarrow> l)"

definition capitalize :: "string \<Rightarrow> string" where
  "capitalize s = (case s of [] \<Rightarrow> [] | c # cs \<Rightarrow> upperChar c # map lowerChar cs)"

definition apostrophe :: string where
  "apostrophe = [CHR 0x27]"

text \<open>\<open>error.message = m\<close>\<close>

definition withMessage :: "error \<Rightarrow> string \<Rightarrow> error" where
  "withMessage e m = (case e of TypeError x \<Rightarrow> TypeError m | Error x \<Rightarrow> Error m)"

text \<open>
  What the file system, the modules and the exchange answer at startup: whether
  \<open>./providers/<id>/index.js\<close> exists; whether the provider connects
  (\<open>retrieveExchangeInfo\<close> and \<open>updateFunds\<close>, which gives the ledger); the exports of
  \<open>./advisors/<id>.js\<close> (no file, an exception of \<open>require\<close>, or a value); and the charts
  that \<open>Advisor.getChartConfigs\<close>, \<open>hash\<close> and \<open>Chart.initialize\<close> make of them, with
  their ids.
\<close>

record startup =
  providerExists :: "string \<Rightarrow> bool"
  providerConnects :: "string \<Rightarrow> error + (string \<rightharpoonup> fund)"
  advisorModule :: "string \<Rightarrow> (error + jsval) option"
  chartsOfModule :: "jsval \<Rightarrow> error + (string \<times> chart) list"

definition addProvider :: "startup \<Rightarrow> string \<Rightarrow> bot \<Rightarrow> error + bot" where
  "addProvider su pid b =
     (if \<not> providerExists su pid
      then Inl (Error (''Provider '' @ capitalize pid @ '' doesn'' @ apostrophe @ ''t exist''))
      else (case providerConnects su pid of
              Inl e \<Rightarrow> Inl (withMessage e (''Provider '' @ capitalize pid @ '': '' @ errorToString e))
            | Inr fs \<Rightarrow>
                Inr (logEvent ''success'' (''Provider '' @ capitalize pid @ '' connected'') (b\<lparr>funds := fs\<rparr>))))"

text \<open>
  The charts of an advisor, one after the other (\<open>concatMap\<close>): a chart whose id is
  registered is skipped with a message.
\<close>

fun loadCharts :: "(string \<times> chart) list \<Rightarrow> bot \<Rightarrow> bot" where
  "loadCharts [] b = b"
| "loadCharts ((cid, c) # cs) b =
     loadCharts cs
       (case charts b cid of
          Some c0 \<Rightarrow> logEvent ''info'' (chart_name c0 @ '' already loaded, skipping'') b
        | None \<Rightarrow> b\<lparr>charts := (charts b)(cid \<mapsto> c)\<rparr>)"

text \<open>\<open>this.advisors[advisorId] = advisor\<close>: a key keeps its place when it is assigned again.\<close>

fun assign :: "string \<Rightarrow> 'v \<Rightarrow> (string \<times> 'v) list \<Rightarrow> (string \<times> 'v) list" where
  "assign k v [] = [(k, v)]"
| "assign k v ((k', v') # kvs) = (if k' = k then (k, v) # kvs else (k', v') # assign k v kvs)"

definition addAdvisor :: "startup \<Rightarrow> string \<Rightarrow> bot \<Rightarrow> error + bot" where
  "addAdvisor su aid b =
     (case advisorModule su aid of
        None \<Rightarrow> Inl (Error (''Advisor '' @ capitalize aid @ '' doesn'' @ apostrophe @ ''t exist''))
      | Some (Inl e) \<Rightarrow> Inl (withMessage e (''Advisor '' @ capitalize aid @ '': '' @ errorToString e))
      | Some (Inr advisorConfig) \<Rightarrow>
          (case advisorConfig of
             JArr (x # xs) \<Rightarrow>
               (case chartsOfModule su advisorConfig of
                  Inl e \<Rightarrow> Inl (withMessage e (''Advisor '' @ capitalize aid @ '': '' @ errorToString e))
                | Inr cs \<Rightarrow>
                    Inr (logEvent ''success'' (''Advisor '' @ capitalize aid @ '' running'')
                           ((loadCharts cs b)
                              \<lparr>advisors := assign aid
                                  \<lparr>advisor_name = capitalize aid, chartIds = map fst cs, margin = 0\<rparr>
                                  (advisors (loadCharts cs b))\<rparr>)))
           | _ \<Rightarrow> Inl (Error (''Advisor '' @ capitalize aid @ '' not configured properly''))))"

text \<open>
  The callback of the \<open>concatMap\<close> over the advisors of the configuration: an entry that
  is not a non-empty string, and an advisor that cannot be added, are logged; the promise
  resolves in either case.
\<close>

definition oneAdvisor :: "startup \<Rightarrow> nat \<Rightarrow> jsval \<Rightarrow> bot \<Rightarrow> bot" where
  "oneAdvisor su index v b =
     (case v of
        JStr (c # cs) \<Rightarrow>
          (case addAdvisor su (c # cs) b of
             Inl e \<Rightarrow> logError e b
           | Inr b1 \<Rightarrow> b1)
      | _ \<Rightarrow> logError (Error (''Advisor #'' @ digitsOf (index + 1) @ '' not configured properly'')) b)"

text \<open>The advisors of the configuration, one after the other.\<close>

fun addAdvisors :: "startup \<Rightarrow> nat \<Rightarrow> jsval list \<Rightarrow> bot \<Rightarrow> bot" where
  "addAdvisors su index [] b = b"
| "addAdvisors su index (v # vs) b = addAdvisors su (Suc index) vs (oneAdvisor su index v b)"

text \<open>\<open>Array.prototype.toString\<close> of the names, each after a space.\<close>

fun joinNames :: "string list \<Rightarrow> string" where
  "joinNames [] = []"
| "joinNames [n] = '' '' @ n"
| "joinNames (n # ns) = '' '' @ n @ '','' @ joinNames ns"

text \<open>
  The advisors, given the value of \<open>advisors\<close> in the configuration: a value that is not
  an array is logged and taken as the empty list.
\<close>

definition loadAdvisors :: "startup \<Rightarrow> jsval \<Rightarrow> bot \<Rightarrow> bot" where
  "loadAdvisors su a b =
     (case a of
        JArr advisorIds \<Rightarrow> addAdvisors su 0 advisorIds b
      | _ \<Rightarrow> logError (Error ''Advisors not configured properly'') b)"

text \<open>
  The end of the \<open>try\<close>: without \<open>options.console\<close>, the launch is logged and the running
  advisors are listed; with advisors, the mode (\<open>options.real\<close>) is logged.  The user
  interface and its bindings are not modelled.
\<close>

definition announce :: "jsval \<Rightarrow> bot \<Rightarrow> error \<times> bot + bot" where
  "announce options b =
     (case (getProp options ''console'', getProp options ''real'') of
        (Inr consoleOpt, Inr realOpt) \<Rightarrow>
          (let b1 = (if \<not> truthy consoleOpt
                     then logEvent (if advisors b \<noteq> [] then ''success'' else ''warning'')
                            (if advisors b \<noteq> []
                             then ''Advisors running:'' @ joinNames (map (advisor_name \<circ> snd) (advisors b))
                             else ''No advisors running'')
                            (logEvent ''info'' (''Launching'' @ ellipsis) b)
                     else b)
           in Inr (if advisors b1 \<noteq> []
                   then logEvent (if truthy realOpt then ''warning'' else ''info'')
                          (if truthy realOpt then ''*** REAL MODE ENABLED ***''
                           else ''Safe mode (trades will only be announced), run with -r to place real trades'')
                          b1
                   else b1))
      | (Inl e, _) \<Rightarrow> Inl (e, b)
      | (_, Inl e) \<Rightarrow> Inl (e, b))"

text \<open>
  The body of the \<open>try\<close> of \<open>initialize\<close>; an exception comes with the state it leaves.
  \<open>this.options\<close> is \<open>config.options\<close>, set by the constructor.  The periodic update of
  the exchange information is not modelled.
\<close>

definition initializeBody :: "startup \<Rightarrow> jsval \<Rightarrow> bot \<Rightarrow> error \<times> bot + bot" where
  "initializeBody su config b =
     (if \<not> typeofObject config \<or> isArray config
      then Inl (Error ''Bot not configured properly'', b)
      else
        (case (getProp config ''advisors'', getProp config ''provider'') of
           (Inr a, Inr p) \<Rightarrow>
             (if notNonEmptyString (orDefault p (JStr []))
              then Inl (Error ''Provider not configured properly'', b)
              else
                (case addProvider su (case orDefault p (JStr []) of JStr s \<Rightarrow> s | _ \<Rightarrow> []) b of
                   Inl e \<Rightarrow> Inl (e, b)
                 | Inr b1 \<Rightarrow>
                     (case getProp config ''options'' of
                        Inl e \<Rightarrow> Inl (e, loadAdvisors su (orDefault a (JArr [])) b1)
                      | Inr options \<Rightarrow> announce options (loadAdvisors su (orDefault a (JArr [])) b1))))
         | (Inl e, _) \<Rightarrow> Inl (e, b)
         | (_, Inl e) \<Rightarrow> Inl (e, b)))"

text \<open>\<open>initialize\<close>: the \<open>catch\<close> logs the error and calls \<open>process.exit()\<close>.\<close>

definition initialize :: "startup \<Rightarrow> jsval \<Rightarrow> bot \<Rightarrow> bot" where
  "initialize su config b =
     (case initializeBody su config b of
        Inl (e, b1) \<Rightarrow> called ProcessExit (logError e b1)
      | Inr b1 \<Rightarrow> b1)"

text \<open>
  The constructor reads \<open>config.options\<close> before it calls \<open>initialize\<close>: for \<open>null\<close> and
  \<open>undefined\<close> this TypeError leaves the constructor, uncaught.
\<close>

definition newBot :: "startup \<Rightarrow> jsval \<Rightarrow> bot \<Rightarrow> error + bot" where
  "newBot su config b =
     (case getProp config ''options'' of
        Inl e \<Rightarrow> Inl e
      | Inr options \<Rightarrow> Inr (initialize su config b))"

section \<open>Runs of the engine\<close>

text \<open>
  What happens to the engine, one event after the other on the event loop: a notification
  of the bus (with what the advisors and the other collaborators answer while it is
  processed), a position that leaves the open state by one of its own triggers, a refresh
  of the ledger (\<open>updateFunds\<close>), a key press, the passing of time.  Nothing happens
  after \<open>process.exit()\<close>.
\<close>

datatype event =
    Notify analysis "nat \<Rightarrow> nat \<Rightarrow> world" notification
  | Closes nat
  | FundsUpdated "string \<rightharpoonup> fund"
  | KeyP
  | KeyQ
  | KeyK
  | KeyY "nat \<Rightarrow> timed"
  | Elapse nat

definition exited :: "bot \<Rightarrow> bool" where
  "exited b = (ProcessExit \<in> set (calls b))"

definition step :: "event \<Rightarrow> bot \<Rightarrow> bot" where
  "step e b =
     (if exited b then b
      else case e of
             Notify an ws n \<Rightarrow> notify an ws n b
           | Closes i \<Rightarrow> b\<lparr>trades := markClosed i (trades b)\<rparr>
           | FundsUpdated fs \<Rightarrow> b\<lparr>funds := fs\<rparr>
           | KeyP \<Rightarrow> keyPress_p b
           | KeyQ \<Rightarrow> keyPress_q b
           | KeyK \<Rightarrow> keyPress_k b
           | KeyY xw \<Rightarrow> snd (keyPress_y xw b)
           | Elapse dt \<Rightarrow> elapse dt b)"

definition run :: "event list \<Rightarrow> bot \<Rightarrow> bot" where
  "run es b = foldl (\<lambda>s e. step e s) b es"

text \<open>
  The state the constructor leaves, with the advisors, charts and ledger that
  \<open>initialize\<close> has registered.
\<close>

definition started :: "(string \<times> advisor) list \<Rightarrow> (string \<rightharpoonup> chart) \<Rightarrow> (string \<rightharpoonup> fund) \<Rightarrow> bot" where
  "started as cs fs =
     \<lparr>advisors = as, charts = cs, funds = fs, logs = [], paused = False, trades = [],
      unpause = None, currentMode = ''c'', quitting = False, calls = [], now = 0,
      liveTimers = []\<rparr>"

section \<open>Properties: vocabulary\<close>

text \<open>The number of open positions of an advisor on a chart.\<close>

definition openCount :: "string \<Rightarrow> string \<Rightarrow> trade list \<Rightarrow> nat" where
  "openCount aid cid ts = length (filter (openFor aid cid) ts)"

definition atMostOneOpen :: "trade list \<Rightarrow> bool" where
  "atMostOneOpen ts = (\<forall>aid cid. openCount aid cid ts \<le> 1)"

text \<open>
  The asset a position holds and will sell back: the base asset of its chart for a long,
  the quote asset for a short.
\<close>

definition heldAsset :: "(string \<rightharpoonup> chart) \<Rightarrow> trade \<Rightarrow> string option" where
  "heldAsset cs t =
     (case cs (chartId t) of
        None \<Rightarrow> None
      | Some c \<Rightarrow> Some (if isLong t then baseAsset (info c) else quoteAsset (info c)))"

definition committed :: "(string \<rightharpoonup> chart) \<Rightarrow> trade list \<Rightarrow> string \<Rightarrow> real" where
  "committed cs ts A = sum_list (map quantity (filter (\<lambda>t. isOpen t \<and> heldAsset cs t = Some A) ts))"

text \<open>
  The committed quantity in the words of the specification: the open longs whose chart
  has the quote asset \<open>A\<close> and the open shorts whose chart has the base asset \<open>A\<close>.
\<close>

definition committed_spec :: "(string \<rightharpoonup> chart) \<Rightarrow> trade list \<Rightarrow> string \<Rightarrow> real" where
  "committed_spec cs ts A =
     sum_list (map quantity
       (filter (\<lambda>t. isOpen t \<and>
                  (case cs (chartId t) of
                     None \<Rightarrow> False
                   | Some c \<Rightarrow> if isLong t then quoteAsset (info c) = A else baseAsset (info c) = A)) ts))"


text \<open>The part of the state that the pause uses.\<close>

definition timerView :: "bot \<Rightarrow> bool \<times> nat option \<times> nat list \<times> nat" where
  "timerView b = (paused b, unpause b, liveTimers b, now b)"

text \<open>
  While the engine is paused, exactly one unpause timer is subscribed: the one
  \<open>this.unpause\<close> refers to, due within the delay; otherwise none is.
\<close>

definition pauseInv :: "bot \<Rightarrow> bool" where
  "pauseInv b =
     (if paused b
      then (case unpause b of
              None \<Rightarrow> False
            | Some d \<Rightarrow> liveTimers b = [d] \<and> now b < d \<and> d \<le> now b + unpauseDelay)
      else liveTimers b = [])"

section \<open>An example engine\<close>

definition btcusdt :: chart where
  "btcusdt = \<lparr>chart_name = ''BTCUSDT 5m'', info = \<lparr>baseAsset = ''BTC'', quoteAsset = ''USDT''\<rparr>\<rparr>"

definition exampleCharts :: "string \<rightharpoonup> chart" where
  "exampleCharts = [''c1'' \<mapsto> btcusdt]"

definition exampleAdvisors :: "(string \<times> advisor) list" where
  "exampleAdvisors = [(''a1'', \<lparr>advisor_name = ''A1'', chartIds = [''c1''], margin = 0\<rparr>)]"

definition exampleFunds :: "string \<rightharpoonup> fund" where
  "exampleFunds = [''USDT'' \<mapsto> \<lparr>available = 1000\<rparr>]"

definition exampleBot :: bot where
  "exampleBot = started exampleAdvisors exampleCharts exampleFunds"

definition vsa :: strategy where
  "vsa = \<lparr>strategy_name = ''vsa'', risk = Some 10\<rparr>"

text \<open>A world whose clamp returns the requested quantity and whose orders succeed.\<close>

definition calmWorld :: world where
  "calmWorld =
     \<lparr>clampQuantity = (\<lambda>amount i long. Inr amount), entryOrder = EntryFilled,
      exitOrder = (\<lambda>i. ExitFilled), closedWhileClamping = [], closedWhileEntering = []\<rparr>"

definition exampleLong :: trade where
  "exampleLong =
     \<lparr>trade_id = ''T1'', advisorId = ''a1'', chartId = ''c1'', who = ''A1'' @ arrow @ ''BTCUSDT 5m'' @ arrow @ ''vsa'',
      isLong = True, quantity = 100, isOpen = True\<rparr>"

text \<open>One advice with two LONG signals for the same advisor and chart.\<close>

definition twoLongs :: payload where
  "twoLongs = \<lparr>p_advisorId = ''a1'', p_chartId = ''c1'', signals = [''LONG'', ''LONG''], strategy = vsa\<rparr>"

text \<open>An advisor that answers LONG for the strategy, whatever the candle.\<close>

definition eagerAnalysis :: analysis where
  "eagerAnalysis = (\<lambda>adv cs c final wh. Inr [Some \<lparr>a_signals = [''LONG''], a_strategy = vsa\<rparr>])"

text \<open>The example engine holding one open long.\<close>

definition holdingBot :: bot where
  "holdingBot = exampleBot\<lparr>trades := [exampleLong]\<rparr>"

text \<open>A candle in progress on the example chart.\<close>

definition inProgress :: candleData where
  "inProgress = \<lparr>cd_chartId = ''c1'', candles = [], isFinal = False\<rparr>"


text \<open>An advice of the older version: LONG on a candle in progress.\<close>

definition earlyLong_old :: advice_old where
  "earlyLong_old =
     \<lparr>o_advisorId = ''a1'', o_chartId = ''c1'', o_isFinal = False, o_signal = ''LONG'', o_strategy = vsa\<rparr>"

text \<open>The example engine on the quit screen, holding one open long.\<close>

definition quitBot :: bot where
  "quitBot = holdingBot\<lparr>currentMode := ''q''\<rparr>"






text \<open>The example engine after the key \<open>p\<close>.\<close>

definition pausedBot :: bot where
  "pausedBot = run [KeyP] exampleBot"

section \<open>Committed quantity and capital for sizing\<close>

lemma filter_err_total:
  "(\<And>x. x \<in> set xs \<Longrightarrow> p x = Inr (q x)) \<Longrightarrow> filter_err p xs = Inr (filter q xs)"
  by (induction xs) auto

lemma foldl_quantity: "foldl (\<lambda>q t. q + quantity t) a ts = a + sum_list (map quantity ts)"
  by (induction ts arbitrary: a) auto

lemma reduceQuantity_sum: "reduceQuantity ts = sum_list (map quantity ts)"
  by (simp add: reduceQuantity_def foldl_quantity)

lemma sum_filter_split:
  "sum_list (map f (filter (\<lambda>t. P t \<and> Q t) ts)) + sum_list (map f (filter (\<lambda>t. \<not> P t \<and> R t) ts))
   = sum_list (map (f::'a \<Rightarrow> real) (filter (\<lambda>t. if P t then Q t else R t) ts))"
  by (induction ts) auto

lemma locked_eq:
  assumes reg: "\<forall>t\<in>set ts. isOpen t \<longrightarrow> cs (chartId t) \<noteq> None"
  shows "quantityLockedByTrades cs ts A = Inr (committed cs ts A)"
proof -
  have l: "longsSellingBackAsset cs ts A
           = Inr (filter (\<lambda>t. isLong t \<and> (isOpen t \<and> heldAsset cs t = Some A)) ts)"
    unfolding longsSellingBackAsset_def
    by (rule filter_err_total)
       (use reg in \<open>auto simp: longSellsBack_def chartInfoOf_def heldAsset_def split: option.splits\<close>)
  have s: "shortsSellingBackAsset cs ts A
           = Inr (filter (\<lambda>t. \<not> isLong t \<and> (isOpen t \<and> heldAsset cs t = Some A)) ts)"
    unfolding shortsSellingBackAsset_def
    by (rule filter_err_total)
       (use reg in \<open>auto simp: shortSellsBack_def chartInfoOf_def heldAsset_def split: option.splits\<close>)
  show ?thesis
    by (simp add: quantityLockedByTrades_def l s reduceQuantity_sum sum_filter_split committed_def)
qed

lemma filter_err_throws:
  assumes "\<exists>x\<in>set xs. p x = Inl e" and "\<forall>x\<in>set xs. \<forall>e'. p x = Inl e' \<longrightarrow> e' = e"
  shows "filter_err p xs = Inl e"
  using assms
proof (induction xs)
  case Nil
  then show ?case by simp
next
  case (Cons x xs)
  show ?case
  proof (cases "p x")
    case (Inl e')
    with Cons.prems show ?thesis by simp
  next
    case (Inr bb)
    with Cons.prems have "\<exists>x\<in>set xs. p x = Inl e" by auto
    with Cons have "filter_err p xs = Inl e" by simp
    with Inr show ?thesis by simp
  qed
qed

lemma locked_throws:
  assumes "\<exists>t\<in>set ts. isOpen t \<and> cs (chartId t) = None"
  shows "quantityLockedByTrades cs ts A = Inl (TypeError ''Cannot read property info of undefined'')"
proof -
  let ?e = "TypeError ''Cannot read property info of undefined''"
  from assms obtain t where t: "t \<in> set ts" "isOpen t" "cs (chartId t) = None" by blast
  have el: "\<forall>x\<in>set ts. \<forall>e'. longSellsBack cs A x = Inl e' \<longrightarrow> e' = ?e"
    by (auto simp: longSellsBack_def chartInfoOf_def split: if_splits option.splits)
  have es: "\<forall>x\<in>set ts. \<forall>e'. shortSellsBack cs A x = Inl e' \<longrightarrow> e' = ?e"
    by (auto simp: shortSellsBack_def chartInfoOf_def split: if_splits option.splits)
  show ?thesis
  proof (cases "isLong t")
    case True
    with t have "longSellsBack cs A t = Inl ?e"
      by (simp add: longSellsBack_def chartInfoOf_def)
    with t(1) have "\<exists>x\<in>set ts. longSellsBack cs A x = Inl ?e" by blast
    then have "longsSellingBackAsset cs ts A = Inl ?e"
      unfolding longsSellingBackAsset_def using el by (rule filter_err_throws)
    then show ?thesis by (simp add: quantityLockedByTrades_def)
  next
    case False
    with t have "shortSellsBack cs A t = Inl ?e"
      by (simp add: shortSellsBack_def chartInfoOf_def)
    with t(1) have "\<exists>x\<in>set ts. shortSellsBack cs A x = Inl ?e" by blast
    then have s: "shortsSellingBackAsset cs ts A = Inl ?e"
      unfolding shortsSellingBackAsset_def using es by (rule filter_err_throws)
    show ?thesis
    proof (cases "longsSellingBackAsset cs ts A")
      case (Inl e')
      have "\<exists>x\<in>set ts. longSellsBack cs A x = Inl e'"
        using Inl unfolding longsSellingBackAsset_def
        by (induction ts) (auto split: sum.splits)
      with el have "e' = ?e" by blast
      with Inl show ?thesis by (simp add: quantityLockedByTrades_def)
    next
      case (Inr ls)
      with s show ?thesis by (simp add: quantityLockedByTrades_def)
    qed
  qed
qed

text \<open>
  Claim C2, as amended.  When a signal is sized for the asset \<open>A\<close>, the quantity
  treated as committed is the sum of the quantities of the open positions that hold \<open>A\<close>
  and will sell it back: the open longs on charts whose base asset is \<open>A\<close> and the open
  shorts on charts whose quote asset is \<open>A\<close>.  It is computed from the list of positions
  at every call, and the capital for sizing is the available balance of \<open>A\<close> in the
  ledger (0 when the ledger has no entry) minus that quantity.  When an open position is
  on a chart that is not registered, the computation throws a TypeError.
\<close>

theorem C2_committed_quantity:
  "quantityLockedByTrades cs ts A =
     (if \<forall>t\<in>set ts. isOpen t \<longrightarrow> cs (chartId t) \<noteq> None
      then Inr (committed cs ts A)
      else Inl (TypeError ''Cannot read property info of undefined''))
   \<and> sizingFunds cs fs ts A =
     (if \<forall>t\<in>set ts. isOpen t \<longrightarrow> cs (chartId t) \<noteq> None
      then Inr (fundsAvailable fs A - committed cs ts A)
      else Inl (TypeError ''Cannot read property info of undefined''))"
proof (cases "\<forall>t\<in>set ts. isOpen t \<longrightarrow> cs (chartId t) \<noteq> None")
  case True
  then show ?thesis by (simp add: sizingFunds_def locked_eq)
next
  case False
  then have "\<exists>t\<in>set ts. isOpen t \<and> cs (chartId t) = None" by auto
  from locked_throws [OF this] False show ?thesis by (simp add: sizingFunds_def)
qed

text \<open>
  Witness: one open long of quantity 100 on BTC/USDT commits 100 BTC, and leaves the
  1000 USDT of the ledger available.
\<close>

theorem C2_committed_quantity_witness:
  "quantityLockedByTrades exampleCharts [exampleLong] ''BTC'' = Inr 100
   \<and> sizingFunds exampleCharts exampleFunds [exampleLong] ''USDT'' = Inr 1000"
  using C2_committed_quantity [of exampleCharts "[exampleLong]" "''BTC''" exampleFunds]
        C2_committed_quantity [of exampleCharts "[exampleLong]" "''USDT''" exampleFunds]
  by (simp add: exampleCharts_def exampleLong_def exampleFunds_def btcusdt_def committed_def
      heldAsset_def fundsAvailable_def)

text \<open>
  Claim C2 as stated (longs counted for the quote asset, shorts for the base asset) fails:
  with one open long of quantity 100 on BTC/USDT, the code commits nothing for USDT,
  where the words of the specification give 100.
\<close>

theorem C2_counterexample:
  "quantityLockedByTrades exampleCharts [exampleLong] ''USDT'' = Inr 0
   \<and> committed_spec exampleCharts [exampleLong] ''USDT'' = 100"
  by (simp add: quantityLockedByTrades_def longsSellingBackAsset_def shortsSellingBackAsset_def
      longSellsBack_def shortSellsBack_def chartInfoOf_def reduceQuantity_def committed_spec_def
      exampleCharts_def exampleLong_def btcusdt_def)

section \<open>At most one open position per advisor and chart\<close>

lemma trades_called [simp]: "trades (called c b) = trades b"
  by (simp add: called_def)

lemma trades_logError [simp]: "trades (logError e b) = trades b"
  by (simp add: logError_def)

lemma trades_logEvent [simp]: "trades (logEvent l m b) = trades b"
  by (simp add: logEvent_def)

lemma filter_update_le:
  "\<not> P y \<Longrightarrow> length (filter P (xs[i := y])) \<le> length (filter P xs)"
proof (induction xs arbitrary: i)
  case Nil
  then show ?case by simp
next
  case (Cons x xs)
  then show ?case by (cases i) (auto simp: le_SucI)
qed

lemma openCount_markClosed: "openCount aid cid (markClosed i ts) \<le> openCount aid cid ts"
  by (simp add: openCount_def markClosed_def filter_update_le openFor_def)

lemma openCount_markAllClosed: "openCount aid cid (markAllClosed is ts) \<le> openCount aid cid ts"
proof (induction "is" arbitrary: ts)
  case Nil
  then show ?case by simp
next
  case (Cons i "is")
  have "openCount aid cid (markAllClosed is (markClosed i ts)) \<le> openCount aid cid (markClosed i ts)"
    by (rule Cons.IH)
  also have "\<dots> \<le> openCount aid cid ts" by (rule openCount_markClosed)
  finally show ?case by simp
qed

lemma atMostOneOpen_markClosed: "atMostOneOpen ts \<Longrightarrow> atMostOneOpen (markClosed i ts)"
  unfolding atMostOneOpen_def using openCount_markClosed le_trans by blast

lemma atMostOneOpen_markAllClosed: "atMostOneOpen ts \<Longrightarrow> atMostOneOpen (markAllClosed is ts)"
  unfolding atMostOneOpen_def using openCount_markAllClosed le_trans by blast

lemma findIndex_None: "findIndex p xs = None \<longleftrightarrow> (\<forall>x\<in>set xs. \<not> p x)"
  by (induction xs) auto


lemma openCount_none: "findIndex (openFor aid cid) ts = None \<Longrightarrow> openCount aid cid ts = 0"
  by (simp add: findIndex_None openCount_def)

lemma openCount_snoc:
  "openCount a c (ts @ [t]) = openCount a c ts + (if openFor a c t then 1 else 0)"
  by (simp add: openCount_def)

lemma atMostOneOpen_register:
  assumes inv: "atMostOneOpen ts"
      and none: "openCount aid cid ts = 0"
      and t: "advisorId t = aid" "chartId t = cid"
  shows "atMostOneOpen (ts @ [t])"
  unfolding atMostOneOpen_def
proof (intro allI)
  fix a c
  show "openCount a c (ts @ [t]) \<le> 1"
  proof (cases "openFor a c t")
    case True
    with t have "a = aid" "c = cid" by (auto simp: openFor_def)
    with none True show ?thesis by (simp add: openCount_snoc)
  next
    case False
    with inv show ?thesis by (simp add: openCount_snoc atMostOneOpen_def)
  qed
qed

lemma openOnSignal_trades:
  "trades (snd (openOnSignal w aid cid c st wh long b)) = trades b
   \<or> trades (snd (openOnSignal w aid cid c st wh long b)) = markAllClosed (closedWhileClamping w) (trades b)
   \<or> trades (snd (openOnSignal w aid cid c st wh long b))
       = markAllClosed (closedWhileEntering w) (markAllClosed (closedWhileClamping w) (trades b))
   \<or> (findIndex (openFor aid cid) (markAllClosed (closedWhileClamping w) (trades b)) = None
       \<and> (\<exists>t. advisorId t = aid \<and> chartId t = cid \<and> isOpen t
            \<and> trades (snd (openOnSignal w aid cid c st wh long b))
                = markAllClosed (closedWhileEntering w) (markAllClosed (closedWhileClamping w) (trades b)) @ [t]))"
  by (auto simp: openOnSignal_def Let_def Trade_initialize_def split: sum.splits option.splits entry.splits)

lemma openOnSignal_inv:
  assumes "atMostOneOpen (trades b)"
  shows "atMostOneOpen (trades (snd (openOnSignal w aid cid c st wh long b)))"
proof -
  let ?r = "trades (snd (openOnSignal w aid cid c st wh long b))"
  let ?m = "markAllClosed (closedWhileClamping w) (trades b)"
  consider "?r = trades b" | "?r = ?m" | "?r = markAllClosed (closedWhileEntering w) ?m"
    | t where "findIndex (openFor aid cid) ?m = None" "advisorId t = aid" "chartId t = cid"
        "?r = markAllClosed (closedWhileEntering w) ?m @ [t]"
    using openOnSignal_trades [of w aid cid c st wh long b] by blast
  then show ?thesis
  proof cases
    case 1
    with assms show ?thesis by simp
  next
    case 2
    with assms show ?thesis by (simp add: atMostOneOpen_markAllClosed)
  next
    case 3
    with assms show ?thesis by (simp add: atMostOneOpen_markAllClosed)
  next
    case 4
    have "openCount aid cid (markAllClosed (closedWhileEntering w) ?m) \<le> openCount aid cid ?m"
      by (rule openCount_markAllClosed)
    with 4(1) have z: "openCount aid cid (markAllClosed (closedWhileEntering w) ?m) = 0"
      by (simp add: openCount_none)
    have "atMostOneOpen (markAllClosed (closedWhileEntering w) ?m)"
      using assms by (simp add: atMostOneOpen_markAllClosed)
    from atMostOneOpen_register [OF this z 4(2) 4(3)] 4(4) show ?thesis by simp
  qed
qed

lemma closeOnSignal_trades:
  "trades (snd (closeOnSignal w aid cid wh signal b)) = trades b
   \<or> (\<exists>i. trades (snd (closeOnSignal w aid cid wh signal b)) = markClosed i (trades b))"
  by (auto simp: closeOnSignal_def Trade_close_def split: option.splits sum.splits exit.splits)

lemma closeOnSignal_inv:
  "atMostOneOpen (trades b) \<Longrightarrow> atMostOneOpen (trades (snd (closeOnSignal w aid cid wh signal b)))"
  using closeOnSignal_trades [of w aid cid wh signal b] by (auto simp: atMostOneOpen_markClosed)

lemma digestSignal_inv:
  "atMostOneOpen (trades b) \<Longrightarrow> atMostOneOpen (trades (snd (digestSignal w aid cid c st wh signal b)))"
  by (simp add: digestSignal_def openOnSignal_inv closeOnSignal_inv)

lemma runJobs_inv:
  "atMostOneOpen (trades b) \<Longrightarrow> atMostOneOpen (trades (snd (runJobs ws k aid cid c st wh ss b)))"
proof (induction ss arbitrary: k b)
  case Nil
  then show ?case by simp
next
  case (Cons s ss)
  obtain r b1 where d: "digestSignal (ws k) aid cid c st wh s b = (r, b1)" by fastforce
  with Cons.prems have "atMostOneOpen (trades b1)"
    using digestSignal_inv [of b "ws k" aid cid c st wh s] by simp
  from Cons.IH [OF this, of "Suc k"] d show ?case
    by (cases "runJobs ws (Suc k) aid cid c st wh ss b1") simp
qed

lemma analyzeAdvisors_trades: "trades (snd (analyzeAdvisors an as cd b)) = trades b"
  by (induction an as cd b rule: analyzeAdvisors.induct)
     (auto split: prod.splits option.splits sum.splits if_splits)

lemma processNotification_inv:
  "atMostOneOpen (trades b) \<Longrightarrow> atMostOneOpen (trades (snd (processNotification an ws n b)))"
proof (cases n)
  case (ANALYZE_CHART cd)
  assume "atMostOneOpen (trades b)"
  with ANALYZE_CHART show ?thesis
    by (simp add: processNotification_def analyzeChart_def analyzeAdvisors_trades)
next
  case (DIGEST_ADVICE p)
  assume inv: "atMostOneOpen (trades b)"
  show ?thesis
  proof (cases "digestAdvice ws p b")
    case (Inl e)
    with DIGEST_ADVICE inv show ?thesis by (simp add: processNotification_def)
  next
    case (Inr x)
    then have "\<exists>c wh. x = runJobs ws 0 (p_advisorId p) (p_chartId p) c (strategy p) wh (signals p) b"
      by (auto simp: digestAdvice_def split: option.splits)
    then obtain c wh where
      x: "x = runJobs ws 0 (p_advisorId p) (p_chartId p) c (strategy p) wh (signals p) b"
      by blast
    have "atMostOneOpen (trades (snd x))" unfolding x using inv by (rule runJobs_inv)
    with DIGEST_ADVICE Inr show ?thesis
      by (auto simp: processNotification_def split: prod.splits settle.splits)
  qed
qed (simp_all add: processNotification_def)

lemma digestAll_inv:
  "atMostOneOpen (trades b) \<Longrightarrow> atMostOneOpen (trades (digestAll an ws k ps b))"
  by (induction ps arbitrary: k b) (simp_all add: processNotification_inv)

lemma notify_inv: "atMostOneOpen (trades b) \<Longrightarrow> atMostOneOpen (trades (notify an ws n b))"
  using processNotification_inv [of b an "ws 0" n]
  by (auto simp: notify_def digestAll_inv split: prod.splits)

lemma closedBy_inv: "atMostOneOpen ts \<Longrightarrow> atMostOneOpen (closedBy xw T is ts)"
  by (induction "is" arbitrary: ts)
     (auto simp: atMostOneOpen_markClosed split: timed.splits exit.splits)

lemma closeTrades_inv: "atMostOneOpen (trades b) \<Longrightarrow> atMostOneOpen (trades (snd (closeTrades xw b)))"
  by (auto simp: closeTrades_def Let_def closedBy_inv atMostOneOpen_markAllClosed split: outcome.splits)

lemma keyPress_y_inv: "atMostOneOpen (trades b) \<Longrightarrow> atMostOneOpen (trades (snd (keyPress_y xw b)))"
proof -
  assume inv: "atMostOneOpen (trades b)"
  have 1: "atMostOneOpen (trades (snd (closeTrades xw (b\<lparr>currentMode := ''t''\<rparr>))))"
    using inv by (intro closeTrades_inv) simp
  have 2: "atMostOneOpen (trades (snd (closeTrades xw (logEvent ''info'' (''Exiting'' @ ellipsis) b))))"
    using inv by (intro closeTrades_inv) simp
  show ?thesis using 1 2 inv
    by (auto simp: keyPress_y_def split: prod.splits outcome.splits)
qed

lemma trades_keyPress_p [simp]: "trades (keyPress_p b) = trades b"
  by (simp add: keyPress_p_def Let_def logEvent_def split: option.splits)

lemma trades_unpauseTimerFires [simp]: "trades (unpauseTimerFires d b) = trades b"
  by (simp add: unpauseTimerFires_def)

lemma trades_fires: "trades (foldl (\<lambda>s d. unpauseTimerFires d s) b ds) = trades b"
  by (induction ds arbitrary: b) simp_all

lemma trades_elapse [simp]: "trades (elapse dt b) = trades b"
  by (simp add: elapse_def Let_def trades_fires)

lemma step_inv: "atMostOneOpen (trades b) \<Longrightarrow> atMostOneOpen (trades (step e b))"
  by (cases e)
     (simp_all add: step_def notify_inv atMostOneOpen_markClosed keyPress_y_inv keyPress_q_def keyPress_k_def)

lemma run_inv: "atMostOneOpen (trades b) \<Longrightarrow> atMostOneOpen (trades (run es b))"
  unfolding run_def by (induction es arbitrary: b) (simp_all add: step_inv)

lemma length_markClosed [simp]: "length (markClosed i ts) = length ts"
  by (simp add: markClosed_def)

lemma length_markAllClosed [simp]: "length (markAllClosed is ts) = length ts"
  by (induction "is" arbitrary: ts) simp_all

lemma openOnSignal_registers:
  assumes "length (trades b) < length (trades (snd (openOnSignal w aid cid c st wh long b)))"
  shows "findIndex (openFor aid cid) (markAllClosed (closedWhileClamping w) (trades b)) = None
         \<and> openFor aid cid (last (trades (snd (openOnSignal w aid cid c st wh long b))))"
  using assms
  by (auto simp: openOnSignal_def Let_def Trade_initialize_def openFor_def
           split: sum.splits option.splits entry.splits if_splits)

lemma closeOnSignal_length:
  "length (trades (snd (closeOnSignal w aid cid wh signal b))) = length (trades b)"
  using closeOnSignal_trades [of w aid cid wh signal b] by auto

text \<open>
  Claim C1.  In every run of the engine (advice digested through the limiter, positions
  closing by signal, by their own triggers or by the close-all of the key presses, ledger
  refreshes, pauses, time passing), at most one position is open for an advisor and a
  chart at any time: this holds from the start, and it is preserved from any state in
  which it holds.  A job registers a new position only for a LONG or SHORT signal and
  only if no position of the same advisor and chart is open when the clamped quantity
  comes back, which is the check made immediately before the position is created.
\<close>

theorem C1_at_most_one_open:
  "atMostOneOpen (trades (run es (started as cs fs)))
   \<and> (atMostOneOpen (trades b) \<longrightarrow> atMostOneOpen (trades (run es b)))
   \<and> (length (trades b) < length (trades (snd (digestSignal w aid cid c st wh signal b)))
        \<longrightarrow> (signal = ''LONG'' \<or> signal = ''SHORT'')
            \<and> openCount aid cid (markAllClosed (closedWhileClamping w) (trades b)) = 0
            \<and> openFor aid cid (last (trades (snd (digestSignal w aid cid c st wh signal b)))))"
proof (intro conjI impI)
  have "atMostOneOpen (trades (started as cs fs))"
    by (simp add: started_def atMostOneOpen_def openCount_def)
  then show "atMostOneOpen (trades (run es (started as cs fs)))" by (rule run_inv)
next
  assume "atMostOneOpen (trades b)"
  then show "atMostOneOpen (trades (run es b))" by (rule run_inv)
next
  assume g: "length (trades b) < length (trades (snd (digestSignal w aid cid c st wh signal b)))"
  then show s: "signal = ''LONG'' \<or> signal = ''SHORT''"
    by (auto simp: digestSignal_def closeOnSignal_length split: if_splits)
  have "\<not> (signal = ''CLOSE LONG'' \<or> signal = ''CLOSE SHORT'')" using s by auto
  with s g have o: "length (trades b) < length (trades (snd (openOnSignal w aid cid c st wh (signal = ''LONG'') b)))"
    "digestSignal w aid cid c st wh signal b = openOnSignal w aid cid c st wh (signal = ''LONG'') b"
    by (simp_all add: digestSignal_def)
  from openOnSignal_registers [OF o(1)]
  show "openCount aid cid (markAllClosed (closedWhileClamping w) (trades b)) = 0"
    by (simp add: openCount_none)
  from openOnSignal_registers [OF o(1)] o(2)
  show "openFor aid cid (last (trades (snd (digestSignal w aid cid c st wh signal b))))"
    by simp
qed

lemmas ex_defs = exampleBot_def started_def exampleFunds_def exampleCharts_def exampleAdvisors_def btcusdt_def vsa_def
  calmWorld_def twoLongs_def exampleLong_def

lemmas digest_defs = digestSignal_def openOnSignal_def closeOnSignal_def sizingAmount_def sizingFunds_def
  quantityLockedByTrades_def longsSellingBackAsset_def shortsSellingBackAsset_def longSellsBack_def
  shortSellsBack_def chartInfoOf_def reduceQuantity_def fundsAvailable_def settlementAsset_def
  riskOf_def called_def Trade_initialize_def Trade_close_def tradeId_def digitsOf.simps openFor_def openForWho_def
  markClosed_def

lemmas notify_defs = run_def step_def exited_def notify_def processNotification_def digestAdvice_def
  logError_def logEvent_def analyzeChart_def toPayload_def

lemma twoLongs_run:
  "trades (run [Notify eagerAnalysis (\<lambda>k j. calmWorld) (DIGEST_ADVICE twoLongs)] exampleBot) = [exampleLong]"
  by (simp add: notify_defs digest_defs ex_defs)

text \<open>
  Witness: an advice with two LONG signals for the same advisor and chart leaves exactly
  one position, and the first of the two jobs registers it after finding none open.
\<close>

theorem C1_at_most_one_open_witness:
  "atMostOneOpen (trades (run [Notify eagerAnalysis (\<lambda>k j. calmWorld) (DIGEST_ADVICE twoLongs)] exampleBot))
   \<and> trades (run [Notify eagerAnalysis (\<lambda>k j. calmWorld) (DIGEST_ADVICE twoLongs)] exampleBot) = [exampleLong]
   \<and> length (trades exampleBot)
       < length (trades (snd (digestSignal calmWorld ''a1'' ''c1'' btcusdt vsa (who exampleLong) ''LONG'' exampleBot)))
   \<and> openCount ''a1'' ''c1'' (markAllClosed (closedWhileClamping calmWorld) (trades exampleBot)) = 0"
proof -
  have g: "length (trades exampleBot)
       < length (trades (snd (digestSignal calmWorld ''a1'' ''c1'' btcusdt vsa (who exampleLong) ''LONG'' exampleBot)))"
    by (simp add: digest_defs ex_defs)
  have i: "atMostOneOpen (trades exampleBot)"
    by (simp add: ex_defs atMostOneOpen_def openCount_def)
  from C1_at_most_one_open [of "[Notify eagerAnalysis (\<lambda>k j. calmWorld) (DIGEST_ADVICE twoLongs)]"
         exampleAdvisors exampleCharts exampleFunds exampleBot calmWorld "''a1''" "''c1''" btcusdt vsa
         "who exampleLong" "''LONG''"] g i twoLongs_run
  show ?thesis by (simp add: exampleBot_def)
qed

section \<open>Position size\<close>










section \<open>Close signals\<close>








section \<open>Unrecognized signals\<close>


lemma calls_logError [simp]: "calls (logError e b) = calls b"
  by (simp add: logError_def)












section \<open>Finality of the candle\<close>

lemma digestAdvice_old_gate:
  assumes "o_signal a = ''LONG'' \<or> o_signal a = ''SHORT''" "\<not> o_isFinal a"
  shows "digestAdvice_old w en a b = (Pending, b)"
  using assms by (auto simp: digestAdvice_old_def Let_def split: option.splits)

lemma digestAdvice_old_registers:
  assumes "length (trades b) < length (trades (snd (digestAdvice_old w en a b)))"
  shows "o_isFinal a \<and> (o_signal a = ''LONG'' \<or> o_signal a = ''SHORT'')"
proof (rule ccontr)
  assume n: "\<not> (o_isFinal a \<and> (o_signal a = ''LONG'' \<or> o_signal a = ''SHORT''))"
  have "length (trades (snd (digestAdvice_old w en a b))) = length (trades b)"
  proof (cases "o_signal a = ''LONG'' \<or> o_signal a = ''SHORT''")
    case True
    with n have "\<not> o_isFinal a" by simp
    from digestAdvice_old_gate [OF True this] show ?thesis by simp
  next
    case False
    then show ?thesis
      by (simp add: digestAdvice_old_def Let_def Trade_close_def
             split: option.splits sum.splits exit.splits)
  qed
  with assms show False by simp
qed

lemma erase_calls: "b'\<lparr>calls := []\<rparr> = b\<lparr>calls := []\<rparr> \<Longrightarrow> \<exists>x. b' = b\<lparr>calls := x\<rparr>"
proof -
  assume "b'\<lparr>calls := []\<rparr> = b\<lparr>calls := []\<rparr>"
  then have "b' = b\<lparr>calls := calls b'\<rparr>" by (cases b; cases b') simp
  then show ?thesis by blast
qed

lemma openOnSignal_calls:
  "fst (openOnSignal w aid cid c st wh long (b\<lparr>calls := x\<rparr>)) = fst (openOnSignal w aid cid c st wh long b)
   \<and> (snd (openOnSignal w aid cid c st wh long (b\<lparr>calls := x\<rparr>)))\<lparr>calls := []\<rparr>
       = (snd (openOnSignal w aid cid c st wh long b))\<lparr>calls := []\<rparr>"
  by (simp add: openOnSignal_def called_def Let_def split: sum.splits option.splits)

lemma closeOnSignal_calls:
  "fst (closeOnSignal w aid cid wh s (b\<lparr>calls := x\<rparr>)) = fst (closeOnSignal w aid cid wh s b)
   \<and> (snd (closeOnSignal w aid cid wh s (b\<lparr>calls := x\<rparr>)))\<lparr>calls := []\<rparr>
       = (snd (closeOnSignal w aid cid wh s b))\<lparr>calls := []\<rparr>"
  by (simp add: closeOnSignal_def called_def split: sum.splits option.splits)

lemma digestSignal_calls:
  "fst (digestSignal w aid cid c st wh s (b\<lparr>calls := x\<rparr>)) = fst (digestSignal w aid cid c st wh s b)
   \<and> (snd (digestSignal w aid cid c st wh s (b\<lparr>calls := x\<rparr>)))\<lparr>calls := []\<rparr>
       = (snd (digestSignal w aid cid c st wh s b))\<lparr>calls := []\<rparr>"
  by (simp add: digestSignal_def openOnSignal_calls closeOnSignal_calls)

lemma runJobs_calls:
  "fst (runJobs ws k aid cid c st wh ss (b\<lparr>calls := x\<rparr>)) = fst (runJobs ws k aid cid c st wh ss b)
   \<and> (snd (runJobs ws k aid cid c st wh ss (b\<lparr>calls := x\<rparr>)))\<lparr>calls := []\<rparr>
       = (snd (runJobs ws k aid cid c st wh ss b))\<lparr>calls := []\<rparr>"
proof (induction ss arbitrary: k b x)
  case Nil
  then show ?case by simp
next
  case (Cons s ss)
  obtain r b1 where d: "digestSignal (ws k) aid cid c st wh s b = (r, b1)" by fastforce
  obtain r' b1' where d': "digestSignal (ws k) aid cid c st wh s (b\<lparr>calls := x\<rparr>) = (r', b1')" by fastforce
  from digestSignal_calls [of "ws k" aid cid c st wh s x b] d d'
  have e: "r' = r" "b1'\<lparr>calls := []\<rparr> = b1\<lparr>calls := []\<rparr>" by auto
  from erase_calls [OF e(2)] obtain y where y: "b1' = b1\<lparr>calls := y\<rparr>" by blast
  from Cons.IH [of "Suc k" y b1] d d' e(1) y show ?case
    by (cases "runJobs ws (Suc k) aid cid c st wh ss b1";
        cases "runJobs ws (Suc k) aid cid c st wh ss (b1\<lparr>calls := y\<rparr>)") simp
qed

lemma processNotification_digest_calls:
  "(snd (processNotification an ws (DIGEST_ADVICE p) (b\<lparr>calls := x\<rparr>)))\<lparr>calls := []\<rparr>
         = (snd (processNotification an ws (DIGEST_ADVICE p) b))\<lparr>calls := []\<rparr>"
proof (cases "map_of (advisors b) (p_advisorId p)")
  case None
  then show ?thesis by (simp add: processNotification_def digestAdvice_def logError_def)
next
  case (Some adv)
  show ?thesis
  proof (cases "charts b (p_chartId p)")
    case None
    with Some show ?thesis by (simp add: processNotification_def digestAdvice_def logError_def)
  next
    case Some2: (Some c)
    let ?wh = "advisor_name adv @ arrow @ chart_name c @ arrow @ strategy_name (strategy p)"
    let ?j = "runJobs ws 0 (p_advisorId p) (p_chartId p) c (strategy p) ?wh (signals p)"
    from runJobs_calls [of ws 0 "p_advisorId p" "p_chartId p" c "strategy p" ?wh "signals p" x b]
    have j: "fst (?j (b\<lparr>calls := x\<rparr>)) = fst (?j b)"
      "(snd (?j (b\<lparr>calls := x\<rparr>)))\<lparr>calls := []\<rparr> = (snd (?j b))\<lparr>calls := []\<rparr>"
      by simp_all
    have 1: "digestAdvice ws p b = Inr (?j b)" using Some Some2 by (simp add: digestAdvice_def)
    have 2: "digestAdvice ws p (b\<lparr>calls := x\<rparr>) = Inr (?j (b\<lparr>calls := x\<rparr>))"
      using Some Some2 by (simp add: digestAdvice_def)
    obtain rs b1 where o: "?j b = (rs, b1)" by fastforce
    obtain rs' b1' where o': "?j (b\<lparr>calls := x\<rparr>) = (rs', b1')" by fastforce
    from j o o' have e: "rs' = rs" "b1'\<lparr>calls := []\<rparr> = b1\<lparr>calls := []\<rparr>" by simp_all
    from erase_calls [OF e(2)] obtain y where y: "b1' = b1\<lparr>calls := y\<rparr>" by blast
    show ?thesis
      by (simp add: processNotification_def 1 2 o o' e(1) y logError_def split: settle.splits)
  qed
qed

lemma digestAll_calls:
  "(digestAll an ws k ps (b\<lparr>calls := x\<rparr>))\<lparr>calls := []\<rparr> = (digestAll an ws k ps b)\<lparr>calls := []\<rparr>"
proof (induction ps arbitrary: k b x)
  case Nil
  then show ?case by simp
next
  case (Cons p ps)
  from erase_calls [OF processNotification_digest_calls [of an "ws k" p x b]]
  obtain y where "snd (processNotification an (ws k) (DIGEST_ADVICE p) (b\<lparr>calls := x\<rparr>))
                  = (snd (processNotification an (ws k) (DIGEST_ADVICE p) b))\<lparr>calls := y\<rparr>"
    by blast
  then show ?case by (simp add: Cons.IH)
qed

lemma analyzeAdvisors_flag:
  assumes an: "\<And>adv c wh. an adv (candles cd) c f wh = an adv (candles cd) c (isFinal cd) wh"
  shows "fst (analyzeAdvisors an as (cd\<lparr>isFinal := f\<rparr>) (b\<lparr>calls := x\<rparr>)) = fst (analyzeAdvisors an as cd b)
         \<and> (snd (analyzeAdvisors an as (cd\<lparr>isFinal := f\<rparr>) (b\<lparr>calls := x\<rparr>)))\<lparr>calls := []\<rparr>
             = (snd (analyzeAdvisors an as cd b))\<lparr>calls := []\<rparr>"
proof (induction as arbitrary: b x)
  case Nil
  then show ?case by simp
next
  case (Cons a as)
  obtain aid adv where a: "a = (aid, adv)" by (cases a)
  let ?one = "\<lambda>cd b. (if cd_chartId cd \<in> set (chartIds adv)
            then (case charts b (cd_chartId cd) of
                    None \<Rightarrow> ([], b)
                  | Some c \<Rightarrow>
                      (case an adv (candles cd) c (isFinal cd) (advisor_name adv @ arrow @ chart_name c) of
                         Inl e \<Rightarrow> ([], logError e (called (AdvisorAnalyze aid (cd_chartId cd) (isFinal cd)) b))
                       | Inr advs \<Rightarrow>
                           (map (toPayload aid (cd_chartId cd)) (List.map_filter (\<lambda>a. a) advs),
                            called (AdvisorAnalyze aid (cd_chartId cd) (isFinal cd)) b)))
            else ([], b))"
  have one: "fst (?one (cd\<lparr>isFinal := f\<rparr>) (b\<lparr>calls := x\<rparr>)) = fst (?one cd b)
             \<and> (snd (?one (cd\<lparr>isFinal := f\<rparr>) (b\<lparr>calls := x\<rparr>)))\<lparr>calls := []\<rparr> = (snd (?one cd b))\<lparr>calls := []\<rparr>"
    by (simp add: an called_def logError_def split: option.splits sum.splits)
  obtain ps b1 where o: "?one cd b = (ps, b1)" by fastforce
  obtain ps' b1' where o': "?one (cd\<lparr>isFinal := f\<rparr>) (b\<lparr>calls := x\<rparr>) = (ps', b1')" by fastforce
  from one o o' have e: "ps' = ps" "b1'\<lparr>calls := []\<rparr> = b1\<lparr>calls := []\<rparr>" by simp_all
  from erase_calls [OF e(2)] obtain y where y: "b1' = b1\<lparr>calls := y\<rparr>" by blast
  have u: "analyzeAdvisors an (a # as) cd b
           = (case ?one cd b of (ps, b1) \<Rightarrow> (case analyzeAdvisors an as cd b1 of (qs, b2) \<Rightarrow> (ps @ qs, b2)))"
    unfolding a by simp
  have u': "analyzeAdvisors an (a # as) (cd\<lparr>isFinal := f\<rparr>) (b\<lparr>calls := x\<rparr>)
           = (case ?one (cd\<lparr>isFinal := f\<rparr>) (b\<lparr>calls := x\<rparr>) of
                (ps, b1) \<Rightarrow> (case analyzeAdvisors an as (cd\<lparr>isFinal := f\<rparr>) b1 of (qs, b2) \<Rightarrow> (ps @ qs, b2)))"
    unfolding a by simp
  from Cons.IH [of y b1] show ?case
    unfolding u u' o o' e(1) y
    by (cases "analyzeAdvisors an as cd b1";
        cases "analyzeAdvisors an as (cd\<lparr>isFinal := f\<rparr>) (b1\<lparr>calls := y\<rparr>)") simp
qed

lemma notify_flag:
  assumes an: "\<And>adv c wh. an adv (candles cd) c f wh = an adv (candles cd) c (isFinal cd) wh"
  shows "trades (notify an ws (ANALYZE_CHART (cd\<lparr>isFinal := f\<rparr>)) b) = trades (notify an ws (ANALYZE_CHART cd) b)"
proof -
  obtain ps b1 where o: "analyzeChart an cd b = (ps, b1)" by fastforce
  obtain ps' b1' where o': "analyzeChart an (cd\<lparr>isFinal := f\<rparr>) b = (ps', b1')" by fastforce
  have "b\<lparr>calls := calls b\<rparr> = b" by simp
  with analyzeAdvisors_flag [of an cd f "advisors b" "calls b" b, OF an] o o'
  have e: "ps' = ps" "b1'\<lparr>calls := []\<rparr> = b1\<lparr>calls := []\<rparr>"
    by (auto simp: analyzeChart_def split: if_splits)
  from erase_calls [OF e(2)] obtain y where y: "b1' = b1\<lparr>calls := y\<rparr>" by blast
  from digestAll_calls [of an ws 1 ps y b1]
  have "trades ((digestAll an ws 1 ps (b1\<lparr>calls := y\<rparr>))\<lparr>calls := []\<rparr>)
        = trades ((digestAll an ws 1 ps b1)\<lparr>calls := []\<rparr>)"
    by simp
  then show ?thesis by (simp add: notify_def processNotification_def o o' e(1) y)
qed

text \<open>
  Claim C3, as amended.  In the older version, \<open>digestAdvice\<close> acts on a LONG or SHORT
  signal only when the advice says that the candle is final: otherwise nothing changes
  (the promise stays unsettled), and a position is registered only for a final candle.
  In the current version the advice carries no finality and \<open>digestAdvice\<close> does not test
  it: \<open>analyzeChart\<close> hands \<open>isFinal\<close> to \<open>advisor.analyze\<close>, and when the answers of
  the advisors do not depend on it, the positions after the candle has been processed are
  the same for a candle in progress and for a final one.
\<close>

theorem C3_final_candle:
  "((o_signal a = ''LONG'' \<or> o_signal a = ''SHORT'') \<and> \<not> o_isFinal a
      \<longrightarrow> digestAdvice_old w en a b = (Pending, b))
   \<and> (length (trades b) < length (trades (snd (digestAdvice_old w en a b))) \<longrightarrow> o_isFinal a)
   \<and> ((\<forall>adv c wh. an adv (candles cd) c True wh = an adv (candles cd) c False wh)
      \<longrightarrow> trades (notify an ws (ANALYZE_CHART (cd\<lparr>isFinal := False\<rparr>)) b)
          = trades (notify an ws (ANALYZE_CHART (cd\<lparr>isFinal := True\<rparr>)) b))"
proof (intro conjI impI)
  assume "(o_signal a = ''LONG'' \<or> o_signal a = ''SHORT'') \<and> \<not> o_isFinal a"
  then show "digestAdvice_old w en a b = (Pending, b)"
    using digestAdvice_old_gate by blast
next
  assume "length (trades b) < length (trades (snd (digestAdvice_old w en a b)))"
  from digestAdvice_old_registers [OF this] show "o_isFinal a" by simp
next
  assume h: "\<forall>adv c wh. an adv (candles cd) c True wh = an adv (candles cd) c False wh"
  have "trades (notify an ws (ANALYZE_CHART (cd\<lparr>isFinal := f\<rparr>)) b) = trades (notify an ws (ANALYZE_CHART cd) b)" for f
    by (rule notify_flag) (use h in \<open>metis (full_types)\<close>)
  then show "trades (notify an ws (ANALYZE_CHART (cd\<lparr>isFinal := False\<rparr>)) b)
          = trades (notify an ws (ANALYZE_CHART (cd\<lparr>isFinal := True\<rparr>)) b)"
    by simp
qed

lemma inProgress_run:
  "trades (notify eagerAnalysis (\<lambda>k j. calmWorld) (ANALYZE_CHART (inProgress\<lparr>isFinal := f\<rparr>)) exampleBot) = [exampleLong]"
  by (simp add: notify_defs digest_defs ex_defs inProgress_def eagerAnalysis_def analyzeChart_def
      List.map_filter_simps arrow_def)

text \<open>
  Witness: the older version leaves a LONG on a candle in progress undigested; in the
  current version, with an advisor that answers LONG whatever the candle, the position is
  opened for a candle in progress as for a final one.
\<close>

theorem C3_final_candle_witness:
  "digestAdvice_old calmWorld None earlyLong_old exampleBot = (Pending, exampleBot)
   \<and> trades (notify eagerAnalysis (\<lambda>k j. calmWorld) (ANALYZE_CHART (inProgress\<lparr>isFinal := False\<rparr>)) exampleBot)
       = [exampleLong]
   \<and> trades (notify eagerAnalysis (\<lambda>k j. calmWorld) (ANALYZE_CHART (inProgress\<lparr>isFinal := True\<rparr>)) exampleBot)
       = [exampleLong]"
proof -
  have 1: "(o_signal earlyLong_old = ''LONG'' \<or> o_signal earlyLong_old = ''SHORT'') \<and> \<not> o_isFinal earlyLong_old"
    by (simp add: earlyLong_old_def)
  have 2: "\<forall>adv c wh. eagerAnalysis adv (candles inProgress) c True wh = eagerAnalysis adv (candles inProgress) c False wh"
    by (simp add: eagerAnalysis_def)
  from C3_final_candle [of earlyLong_old calmWorld None exampleBot eagerAnalysis inProgress "\<lambda>k j. calmWorld"] 1 2
       inProgress_run [of True]
  show ?thesis by simp
qed

text \<open>
  Claim C3 as stated fails on the current version: a LONG signal computed on a candle in
  progress is emitted as advice, digested, and opens a position.
\<close>

theorem C3_counterexample:
  "\<not> isFinal inProgress
   \<and> fst (analyzeChart eagerAnalysis inProgress exampleBot)
       = [\<lparr>p_advisorId = ''a1'', p_chartId = ''c1'', signals = [''LONG''], strategy = vsa\<rparr>]
   \<and> trades (run [Notify eagerAnalysis (\<lambda>k j. calmWorld) (ANALYZE_CHART inProgress)] exampleBot)
       = [exampleLong]"
  by (simp add: notify_defs digest_defs ex_defs inProgress_def eagerAnalysis_def analyzeChart_def
      List.map_filter_simps arrow_def)

section \<open>Shutdown\<close>

lemma openIndices_iff: "i \<in> set (openIndices ts) \<longleftrightarrow> i < length ts \<and> isOpen (ts ! i)"
  by (auto simp: openIndices_def)

lemma earliestRejection_None:
  "earliestRejection xs = None \<Longrightarrow> x \<in> set xs \<Longrightarrow> x = SettlesAt t ex \<Longrightarrow> ex = ExitFilled"
proof (induction xs)
  case Nil
  then show ?case by simp
next
  case (Cons y ys)
  show ?case
  proof (cases y)
    case NeverSettles
    with Cons show ?thesis by auto
  next
    case (SettlesAt t' ex')
    show ?thesis
    proof (cases ex')
      case ExitFilled
      with SettlesAt Cons show ?thesis by auto
    next
      case (ExitRejected e)
      with SettlesAt Cons.prems(1) show ?thesis
        by (simp split: option.splits prod.splits if_splits)
    qed
  qed
qed

lemma latestFulfilment_Some:
  "latestFulfilment xs = Some T \<Longrightarrow> x \<in> set xs \<Longrightarrow> \<exists>t ex. x = SettlesAt t ex \<and> t \<le> T"
proof (induction xs arbitrary: T rule: latestFulfilment.induct)
  case 1
  then show ?case by simp
next
  case (2 t ex xs)
  from "2.prems"(1) obtain T' where T': "latestFulfilment xs = Some T'" "T = max t T'" by auto
  show ?case
  proof (cases "x = SettlesAt t ex")
    case True
    with T' show ?thesis by auto
  next
    case False
    with "2.prems"(2) have "x \<in> set xs" by simp
    from "2.IH" [OF T'(1) this] T'(2) show ?thesis by (auto simp: max_def)
  qed
next
  case (3 xs)
  then show ?case by simp
qed

lemma promiseAllTimed_fulfilled:
  assumes "promiseAllTimed xs = FulfilledAt T" "x \<in> set xs"
  shows "\<exists>t\<le>T. x = SettlesAt t ExitFilled"
proof -
  from assms(1) have e: "earliestRejection xs = None" and l: "latestFulfilment xs = Some T"
    by (auto simp: promiseAllTimed_def split: option.splits prod.splits)
  from latestFulfilment_Some [OF l assms(2)] obtain t ex where x: "x = SettlesAt t ex" "t \<le> T" by blast
  from earliestRejection_None [OF e assms(2) x(1)] x show ?thesis by blast
qed

lemma promiseAllTimed_fulfilled_iff:
  "(\<exists>T. promiseAllTimed xs = FulfilledAt T) \<longleftrightarrow> (\<forall>x\<in>set xs. fills x)"
proof
  assume "\<exists>T. promiseAllTimed xs = FulfilledAt T"
  then obtain T where "promiseAllTimed xs = FulfilledAt T" by blast
  from promiseAllTimed_fulfilled [OF this] show "\<forall>x\<in>set xs. fills x" by fastforce
next
  assume a: "\<forall>x\<in>set xs. fills x"
  then have "earliestRejection xs = None \<and> (\<exists>T. latestFulfilment xs = Some T)"
  proof (induction xs)
    case Nil
    then show ?case by simp
  next
    case (Cons x xs)
    then obtain t where "x = SettlesAt t ExitFilled" by (cases x rule: fills.cases) auto
    with Cons show ?case by auto
  qed
  then show "\<exists>T. promiseAllTimed xs = FulfilledAt T" by (auto simp: promiseAllTimed_def)
qed

lemma length_closedBy [simp]: "length (closedBy xw T is ts) = length ts"
  by (induction "is" arbitrary: ts) (auto split: timed.splits exit.splits)

lemma markClosed_nth:
  "j < length ts \<Longrightarrow> isOpen (markClosed i ts ! j) \<longleftrightarrow> isOpen (ts ! j) \<and> j \<noteq> i"
  by (auto simp: markClosed_def nth_list_update)

lemma closedBy_nth:
  "j < length ts \<Longrightarrow>
   isOpen (closedBy xw T is ts ! j)
   \<longleftrightarrow> isOpen (ts ! j) \<and> \<not> (j \<in> set is \<and> (\<exists>t\<le>T. xw j = SettlesAt t ExitFilled))"
proof (induction "is" arbitrary: ts)
  case Nil
  then show ?case by simp
next
  case (Cons i "is")
  show ?case
  proof (cases "\<exists>t\<le>T. xw i = SettlesAt t ExitFilled")
    case True
    then obtain t where t: "t \<le> T" "xw i = SettlesAt t ExitFilled" by blast
    with Cons.prems have "isOpen (closedBy xw T is (markClosed i ts) ! j)
       \<longleftrightarrow> isOpen (markClosed i ts ! j) \<and> \<not> (j \<in> set is \<and> (\<exists>t\<le>T. xw j = SettlesAt t ExitFilled))"
      by (intro Cons.IH) simp
    with t Cons.prems show ?thesis by (auto simp: markClosed_nth)
  next
    case False
    then have "closedBy xw T (i # is) ts = closedBy xw T is ts"
      by (auto split: timed.splits exit.splits)
    with False Cons.IH [OF Cons.prems] show ?thesis by auto
  qed
qed

lemma closeTrades_calls:
  "calls (snd (closeTrades xw b)) = calls b @ map (\<lambda>i. TradeClose i ''expire'') (openIndices (trades b))"
  by (simp add: closeTrades_def Let_def split: outcome.splits)

lemma closeTrades_fulfilled:
  assumes "fst (closeTrades xw b) = FulfilledAt T" "i < length (trades b)" "isOpen (trades b ! i)"
  shows "(\<exists>t\<le>T. xw i = SettlesAt t ExitFilled) \<and> \<not> isOpen (trades (snd (closeTrades xw b)) ! i)"
proof -
  from assms(1) have p: "promiseAllTimed (map xw (openIndices (trades b))) = FulfilledAt T"
    by (simp add: closeTrades_def Let_def split: outcome.splits)
  from assms(2,3) have m: "i \<in> set (openIndices (trades b))" by (simp add: openIndices_iff)
  then have "xw i \<in> set (map xw (openIndices (trades b)))" by simp
  from promiseAllTimed_fulfilled [OF p this] have s: "\<exists>t\<le>T. xw i = SettlesAt t ExitFilled" .
  from p have "trades (snd (closeTrades xw b)) = closedBy xw T (openIndices (trades b)) (trades b)"
    by (simp add: closeTrades_def Let_def)
  with s m assms(2) show ?thesis by (simp add: closedBy_nth)
qed

lemma closeTrades_fulfilled_iff:
  "(\<exists>T. fst (closeTrades xw b) = FulfilledAt T) \<longleftrightarrow> (\<forall>i<length (trades b). isOpen (trades b ! i) \<longrightarrow> fills (xw i))"
proof -
  have "(\<exists>T. fst (closeTrades xw b) = FulfilledAt T)
        \<longleftrightarrow> (\<exists>T. promiseAllTimed (map xw (openIndices (trades b))) = FulfilledAt T)"
    by (auto simp: closeTrades_def Let_def split: outcome.splits)
  also have "\<dots> \<longleftrightarrow> (\<forall>x\<in>set (map xw (openIndices (trades b))). fills x)"
    by (rule promiseAllTimed_fulfilled_iff)
  also have "\<dots> \<longleftrightarrow> (\<forall>i<length (trades b). isOpen (trades b ! i) \<longrightarrow> fills (xw i))"
    by (auto simp: openIndices_iff)
  finally show ?thesis .
qed


lemma keyPress_y_q:
  assumes "currentMode b = ''q''"
  shows "keyPress_y xw b =
           (case closeTrades xw (logEvent ''info'' (''Exiting'' @ ellipsis) b) of
              (FulfilledAt T, b1) \<Rightarrow> (Some T, called ProcessExit b1)
            | (RejectedAt T e, b1) \<Rightarrow> (None, logError e b1)
            | (NeverSettled, b1) \<Rightarrow> (None, b1))"
  using assms by (simp add: keyPress_y_def)

lemma closeTrades_logEvent:
  "fst (closeTrades xw (logEvent l m b)) = fst (closeTrades xw b)
   \<and> trades (snd (closeTrades xw (logEvent l m b))) = trades (snd (closeTrades xw b))
   \<and> calls (snd (closeTrades xw (logEvent l m b))) = calls (snd (closeTrades xw b))"
  by (simp add: closeTrades_def logEvent_def Let_def split: outcome.splits)

lemma keyPress_y_exit:
  assumes "currentMode b = ''q''"
  shows "fst (keyPress_y xw b) = (case fst (closeTrades xw b) of FulfilledAt T \<Rightarrow> Some T | _ \<Rightarrow> None)"
    and "trades (snd (keyPress_y xw b)) = trades (snd (closeTrades xw b))"
    and "calls (snd (keyPress_y xw b))
         = calls (snd (closeTrades xw b)) @ (case fst (closeTrades xw b) of FulfilledAt T \<Rightarrow> [ProcessExit] | _ \<Rightarrow> [])"
  using closeTrades_logEvent [of xw "''info''" "''Exiting'' @ ellipsis" b]
  by (cases "closeTrades xw (logEvent ''info'' (''Exiting'' @ ellipsis) b)";
      cases "fst (closeTrades xw (logEvent ''info'' (''Exiting'' @ ellipsis) b))";
      simp add: keyPress_y_q [OF assms] called_def)+

lemma keyPress_y_old_exit:
  assumes "quitting b"
  shows "fst (keyPress_y_old xw b)
         = (case fst (closeTrades xw b) of
              FulfilledAt T \<Rightarrow> Some (if openIndices (trades b) \<noteq> [] then T + 2000 else T)
            | _ \<Rightarrow> None)"
    and "trades (snd (keyPress_y_old xw b)) = trades (snd (closeTrades xw b))"
    and "calls (snd (keyPress_y_old xw b))
         = calls (snd (closeTrades xw b)) @ (case fst (closeTrades xw b) of FulfilledAt T \<Rightarrow> [ProcessExit] | _ \<Rightarrow> [])"
  using assms
  by (cases "closeTrades xw b"; cases "fst (closeTrades xw b)";
      simp add: keyPress_y_old_def called_def logEvent_def)+

text \<open>
  Claim C8.  On the confirmation of the quit screen (key \<open>y\<close> in mode \<open>q\<close>; in the older
  version key \<open>y\<close> while \<open>quitting\<close>), \<open>close('expire')\<close> is called on every open
  position, and on nothing else, before \<open>process.exit\<close>.  When \<open>process.exit\<close> is called at
  the moment \<open>T\<close>, the closure of every position that was open has succeeded at some
  moment not later than \<open>T\<close>, and the position is closed: no closure is pending at the
  exit.  \<open>process.exit\<close> is called exactly when every closure succeeds; when one is
  rejected the error is logged, and the process does not exit.
\<close>

theorem C8_shutdown:
  "(currentMode b = ''q'' \<longrightarrow>
      calls (snd (keyPress_y xw b))
        = calls b @ map (\<lambda>i. TradeClose i ''expire'') (openIndices (trades b))
            @ (case fst (keyPress_y xw b) of None \<Rightarrow> [] | Some T \<Rightarrow> [ProcessExit])
      \<and> (fst (keyPress_y xw b) = Some T \<and> i < length (trades b) \<and> isOpen (trades b ! i)
           \<longrightarrow> (\<exists>t\<le>T. xw i = SettlesAt t ExitFilled) \<and> \<not> isOpen (trades (snd (keyPress_y xw b)) ! i))
      \<and> (fst (keyPress_y xw b) \<noteq> None
           \<longleftrightarrow> (\<forall>i<length (trades b). isOpen (trades b ! i) \<longrightarrow> fills (xw i))))
   \<and> (quitting b \<longrightarrow>
      calls (snd (keyPress_y_old xw b))
        = calls b @ map (\<lambda>i. TradeClose i ''expire'') (openIndices (trades b))
            @ (case fst (keyPress_y_old xw b) of None \<Rightarrow> [] | Some T \<Rightarrow> [ProcessExit])
      \<and> (fst (keyPress_y_old xw b) = Some T \<and> i < length (trades b) \<and> isOpen (trades b ! i)
           \<longrightarrow> (\<exists>t\<le>T. xw i = SettlesAt t ExitFilled) \<and> \<not> isOpen (trades (snd (keyPress_y_old xw b)) ! i))
      \<and> (fst (keyPress_y_old xw b) \<noteq> None
           \<longleftrightarrow> (\<forall>i<length (trades b). isOpen (trades b ! i) \<longrightarrow> fills (xw i))))"
proof (intro conjI impI)
  assume q: "currentMode b = ''q''"
  note y = keyPress_y_exit [OF q, of xw]
  show "calls (snd (keyPress_y xw b))
        = calls b @ map (\<lambda>i. TradeClose i ''expire'') (openIndices (trades b))
            @ (case fst (keyPress_y xw b) of None \<Rightarrow> [] | Some T \<Rightarrow> [ProcessExit])"
    unfolding y by (simp add: closeTrades_calls split: outcome.splits)
  show "fst (keyPress_y xw b) \<noteq> None
           \<longleftrightarrow> (\<forall>i<length (trades b). isOpen (trades b ! i) \<longrightarrow> fills (xw i))"
    unfolding y(1) closeTrades_fulfilled_iff [symmetric] by (simp split: outcome.splits)
  assume h: "fst (keyPress_y xw b) = Some T \<and> i < length (trades b) \<and> isOpen (trades b ! i)"
  then have "fst (closeTrades xw b) = FulfilledAt T" unfolding y(1) by (simp split: outcome.splits)
  from closeTrades_fulfilled [OF this] h
  show "\<exists>t\<le>T. xw i = SettlesAt t ExitFilled" "\<not> isOpen (trades (snd (keyPress_y xw b)) ! i)"
    unfolding y(2) by simp_all
next
  assume q: "quitting b"
  note y = keyPress_y_old_exit [OF q, of xw]
  show "calls (snd (keyPress_y_old xw b))
        = calls b @ map (\<lambda>i. TradeClose i ''expire'') (openIndices (trades b))
            @ (case fst (keyPress_y_old xw b) of None \<Rightarrow> [] | Some T \<Rightarrow> [ProcessExit])"
    unfolding y by (simp add: closeTrades_calls split: outcome.splits)
  show "fst (keyPress_y_old xw b) \<noteq> None
           \<longleftrightarrow> (\<forall>i<length (trades b). isOpen (trades b ! i) \<longrightarrow> fills (xw i))"
    unfolding y(1) closeTrades_fulfilled_iff [symmetric] by (simp split: outcome.splits)
  assume h: "fst (keyPress_y_old xw b) = Some T \<and> i < length (trades b) \<and> isOpen (trades b ! i)"
  then obtain T' where T': "fst (closeTrades xw b) = FulfilledAt T'" "T' \<le> T"
    unfolding y(1) by (auto split: outcome.splits if_splits)
  from closeTrades_fulfilled [OF T'(1)] h T'(2)
  show "\<exists>t\<le>T. xw i = SettlesAt t ExitFilled" "\<not> isOpen (trades (snd (keyPress_y_old xw b)) ! i)"
    unfolding y(2) by (auto intro: le_trans)
qed

text \<open>
  Witness: with one open long whose closure succeeds after 150 ms the process exits at
  150 ms with the position closed; it does not exit when the closure never settles or is
  rejected.
\<close>

theorem C8_shutdown_witness:
  "keyPress_y (\<lambda>i. SettlesAt 150 ExitFilled) quitBot
     = (Some 150, quitBot\<lparr>logs := [\<lparr>level = ''info'', message = ''Exiting'' @ ellipsis\<rparr>],
                           trades := [exampleLong\<lparr>isOpen := False\<rparr>],
                           calls := [TradeClose 0 ''expire'', ProcessExit]\<rparr>)
   \<and> fst (keyPress_y (\<lambda>i. NeverSettles) quitBot) = None
   \<and> fst (keyPress_y (\<lambda>i. SettlesAt 150 (ExitRejected (Error ''rejected''))) quitBot) = None"
proof -
  have q: "currentMode quitBot = ''q''" by (simp add: quitBot_def)
  have o: "\<forall>i<length (trades quitBot). isOpen (trades quitBot ! i) \<longrightarrow> fills (SettlesAt 150 ExitFilled)"
    by simp
  have n: "\<not> (\<forall>i<length (trades quitBot). isOpen (trades quitBot ! i) \<longrightarrow> fills NeverSettles)"
    "\<not> (\<forall>i<length (trades quitBot). isOpen (trades quitBot ! i)
           \<longrightarrow> fills (SettlesAt 150 (ExitRejected (Error ''rejected''))))"
    by (simp_all add: quitBot_def holdingBot_def exampleLong_def)
  have v: "keyPress_y (\<lambda>i. SettlesAt 150 ExitFilled) quitBot
     = (Some 150, quitBot\<lparr>logs := [\<lparr>level = ''info'', message = ''Exiting'' @ ellipsis\<rparr>],
                           trades := [exampleLong\<lparr>isOpen := False\<rparr>],
                           calls := [TradeClose 0 ''expire'', ProcessExit]\<rparr>)"
    by (simp add: keyPress_y_def closeTrades_def openIndices_def promiseAllTimed_def quitBot_def holdingBot_def
        ex_defs logEvent_def called_def markClosed_def Let_def)
  from C8_shutdown [of quitBot "\<lambda>i. SettlesAt 150 ExitFilled" 150 0] q o
  have a: "fst (keyPress_y (\<lambda>i. SettlesAt 150 ExitFilled) quitBot) \<noteq> None" by blast
  from C8_shutdown [of quitBot "\<lambda>i. NeverSettles" 0 0] q n(1)
  have b: "fst (keyPress_y (\<lambda>i. NeverSettles) quitBot) = None" by blast
  from C8_shutdown [of quitBot "\<lambda>i. SettlesAt 150 (ExitRejected (Error ''rejected''))" 0 0] q n(2)
  have c: "fst (keyPress_y (\<lambda>i. SettlesAt 150 (ExitRejected (Error ''rejected''))) quitBot) = None" by blast
  from a b c v show ?thesis by simp
qed

section \<open>Pausing\<close>

lemma timerView_simps [simp]:
  "timerView (called c b) = timerView b"
  "timerView (logError e b) = timerView b"
  "timerView (logEvent l m b) = timerView b"
  "timerView (b\<lparr>trades := ts\<rparr>) = timerView b"
  "timerView (b\<lparr>funds := fs\<rparr>) = timerView b"
  "timerView (b\<lparr>currentMode := m\<rparr>) = timerView b"
  "timerView (b\<lparr>calls := cs\<rparr>) = timerView b"
  by (simp_all add: timerView_def called_def logError_def logEvent_def)

lemma openOnSignal_timer: "timerView (snd (openOnSignal w aid cid c st wh long b)) = timerView b"
  by (simp add: openOnSignal_def Let_def split: sum.splits option.splits)

lemma closeOnSignal_timer: "timerView (snd (closeOnSignal w aid cid wh s b)) = timerView b"
  by (simp add: closeOnSignal_def split: sum.splits option.splits)

lemma digestSignal_timer: "timerView (snd (digestSignal w aid cid c st wh s b)) = timerView b"
  by (simp add: digestSignal_def openOnSignal_timer closeOnSignal_timer)

lemma runJobs_timer: "timerView (snd (runJobs ws k aid cid c st wh ss b)) = timerView b"
proof (induction ss arbitrary: k b)
  case Nil
  then show ?case by simp
next
  case (Cons s ss)
  obtain r b1 where d: "digestSignal (ws k) aid cid c st wh s b = (r, b1)" by fastforce
  then have "timerView b1 = timerView b" using digestSignal_timer [of "ws k" aid cid c st wh s b] by simp
  with Cons.IH [of "Suc k" b1] d show ?case
    by (cases "runJobs ws (Suc k) aid cid c st wh ss b1") simp
qed

lemma analyzeAdvisors_timer: "timerView (snd (analyzeAdvisors an as cd b)) = timerView b"
  by (induction an as cd b rule: analyzeAdvisors.induct)
     (auto split: prod.splits option.splits sum.splits if_splits)

lemma processNotification_timer: "timerView (snd (processNotification an ws n b)) = timerView b"
proof (cases n)
  case (ANALYZE_CHART cd)
  then show ?thesis by (simp add: processNotification_def analyzeChart_def analyzeAdvisors_timer)
next
  case (DIGEST_ADVICE p)
  show ?thesis
  proof (cases "digestAdvice ws p b")
    case (Inl e)
    with DIGEST_ADVICE show ?thesis by (simp add: processNotification_def)
  next
    case (Inr x)
    then have "\<exists>c wh. x = runJobs ws 0 (p_advisorId p) (p_chartId p) c (strategy p) wh (signals p) b"
      by (auto simp: digestAdvice_def split: option.splits)
    then obtain c wh where
      x: "x = runJobs ws 0 (p_advisorId p) (p_chartId p) c (strategy p) wh (signals p) b"
      by blast
    have "timerView (snd x) = timerView b" unfolding x by (rule runJobs_timer)
    with DIGEST_ADVICE Inr show ?thesis
      by (cases x) (auto simp: processNotification_def split: settle.splits)
  qed
qed (simp_all add: processNotification_def)

lemma digestAll_timer: "timerView (digestAll an ws k ps b) = timerView b"
  by (induction ps arbitrary: k b) (simp_all add: processNotification_timer)

lemma notify_timer: "timerView (notify an ws n b) = timerView b"
  using processNotification_timer [of an "ws 0" n b]
  by (cases "processNotification an (ws 0) n b") (simp add: notify_def digestAll_timer)

lemma closeTrades_timer: "timerView (snd (closeTrades xw b)) = timerView b"
  by (simp add: closeTrades_def Let_def timerView_def split: outcome.splits)

lemma keyPress_y_timer: "timerView (snd (keyPress_y xw b)) = timerView b"
proof -
  have 1: "timerView (snd (closeTrades xw (b\<lparr>currentMode := ''t''\<rparr>))) = timerView b"
    by (simp add: closeTrades_timer)
  have 2: "timerView (snd (closeTrades xw (logEvent ''info'' (''Exiting'' @ ellipsis) b))) = timerView b"
    by (simp add: closeTrades_timer)
  show ?thesis
    using 1 2
    by (cases "closeTrades xw (b\<lparr>currentMode := ''t''\<rparr>)";
        cases "closeTrades xw (logEvent ''info'' (''Exiting'' @ ellipsis) b)")
       (auto simp: keyPress_y_def split: outcome.splits)
qed

lemma pauseInv_timerView: "timerView b' = timerView b \<Longrightarrow> pauseInv b' = pauseInv b"
  by (auto simp: timerView_def pauseInv_def split: option.splits)

lemma unpauseDelay_pos: "0 < unpauseDelay"
  by (simp add: unpauseDelay_def)

lemma keyPress_p_inv: "pauseInv b \<Longrightarrow> pauseInv (keyPress_p b)"
  using unpauseDelay_pos
  by (auto simp: pauseInv_def keyPress_p_def Let_def logEvent_def split: option.splits if_splits)

lemma elapse_quiet:
  "filter (\<lambda>d. d \<le> now b + dt) (liveTimers b) = [] \<Longrightarrow> elapse dt b = b\<lparr>now := now b + dt\<rparr>"
  by (simp add: elapse_def Let_def)

lemma elapse_fires:
  "liveTimers b = [d] \<Longrightarrow> d \<le> now b + dt \<Longrightarrow>
   elapse dt b = unpauseTimerFires d (b\<lparr>now := now b + dt\<rparr>)"
  by (simp add: elapse_def Let_def)

lemma elapse_inv: "pauseInv b \<Longrightarrow> pauseInv (elapse dt b)"
proof (cases "paused b")
  case False
  assume "pauseInv b"
  with False have "liveTimers b = []" by (simp add: pauseInv_def)
  then have "elapse dt b = b\<lparr>now := now b + dt\<rparr>" by (simp add: elapse_quiet)
  with False \<open>liveTimers b = []\<close> show ?thesis by (simp add: pauseInv_def)
next
  case True
  assume "pauseInv b"
  with True obtain d where d: "unpause b = Some d" "liveTimers b = [d]" "now b < d" "d \<le> now b + unpauseDelay"
    by (auto simp: pauseInv_def split: option.splits)
  show ?thesis
  proof (cases "d \<le> now b + dt")
    case due: True
    from elapse_fires [OF d(2) due] d show ?thesis
      by (simp add: pauseInv_def unpauseTimerFires_def logEvent_def)
  next
    case False
    with d(2) have "elapse dt b = b\<lparr>now := now b + dt\<rparr>" by (simp add: elapse_quiet)
    with True d False show ?thesis by (simp add: pauseInv_def)
  qed
qed

lemma step_pauseInv: "pauseInv b \<Longrightarrow> pauseInv (step e b)"
proof (cases e)
  case (Notify an ws n)
  assume "pauseInv b"
  with Notify show ?thesis
    using pauseInv_timerView [OF notify_timer [of an ws n b]] by (simp add: step_def)
next
  case (Closes i)
  assume "pauseInv b"
  with Closes show ?thesis
    using pauseInv_timerView [of "b\<lparr>trades := markClosed i (trades b)\<rparr>" b] by (simp add: step_def)
next
  case (FundsUpdated fs)
  assume "pauseInv b"
  with FundsUpdated show ?thesis
    using pauseInv_timerView [of "b\<lparr>funds := fs\<rparr>" b] by (simp add: step_def)
next
  case KeyP
  assume "pauseInv b"
  with KeyP show ?thesis by (simp add: step_def keyPress_p_inv)
next
  case KeyQ
  assume "pauseInv b"
  with KeyQ show ?thesis
    using pauseInv_timerView [of "b\<lparr>currentMode := ''q''\<rparr>" b] by (simp add: step_def keyPress_q_def)
next
  case KeyK
  assume "pauseInv b"
  with KeyK show ?thesis
    using pauseInv_timerView [of "b\<lparr>currentMode := ''k''\<rparr>" b] by (simp add: step_def keyPress_k_def)
next
  case (KeyY xw)
  assume "pauseInv b"
  with KeyY show ?thesis
    using pauseInv_timerView [OF keyPress_y_timer [of xw b]] by (simp add: step_def)
next
  case (Elapse dt)
  assume "pauseInv b"
  with Elapse show ?thesis by (simp add: step_def elapse_inv)
qed

lemma run_pauseInv: "pauseInv b \<Longrightarrow> pauseInv (run es b)"
  unfolding run_def by (induction es arbitrary: b) (simp_all add: step_pauseInv)

lemma started_pauseInv: "pauseInv (started as cs fs)"
  by (simp add: started_def pauseInv_def)

lemma openOnSignal_paused:
  "openOnSignal w aid cid c st wh long (b\<lparr>paused := p\<rparr>)
   = (fst (openOnSignal w aid cid c st wh long b), (snd (openOnSignal w aid cid c st wh long b))\<lparr>paused := p\<rparr>)"
  by (simp add: openOnSignal_def called_def Let_def split: sum.splits option.splits)

lemma closeOnSignal_paused:
  "closeOnSignal w aid cid wh s (b\<lparr>paused := p\<rparr>)
   = (fst (closeOnSignal w aid cid wh s b), (snd (closeOnSignal w aid cid wh s b))\<lparr>paused := p\<rparr>)"
  by (simp add: closeOnSignal_def called_def split: sum.splits option.splits)

lemma digestSignal_paused:
  "digestSignal w aid cid c st wh s (b\<lparr>paused := p\<rparr>)
   = (fst (digestSignal w aid cid c st wh s b), (snd (digestSignal w aid cid c st wh s b))\<lparr>paused := p\<rparr>)"
  by (simp add: digestSignal_def openOnSignal_paused closeOnSignal_paused)

lemma closeTrades_paused:
  "closeTrades xw (b\<lparr>paused := p\<rparr>) = (fst (closeTrades xw b), (snd (closeTrades xw b))\<lparr>paused := p\<rparr>)"
  by (simp add: closeTrades_def Let_def split: outcome.splits)

lemma paused_analyzeChart: "paused b \<Longrightarrow> analyzeChart an cd b = ([], b)"
  by (simp add: analyzeChart_def)

lemma paused_notify: "paused b \<Longrightarrow> notify an ws (ANALYZE_CHART cd) b = b"
  by (simp add: notify_def processNotification_def analyzeChart_def)

lemma pauseInv_reverts:
  assumes "pauseInv b" "paused b"
  shows "\<not> paused (elapse unpauseDelay b)"
proof -
  from assms obtain d where d: "liveTimers b = [d]" "d \<le> now b + unpauseDelay"
    by (auto simp: pauseInv_def split: option.splits)
  from elapse_fires [OF d] show ?thesis by (simp add: unpauseTimerFires_def logEvent_def)
qed

lemma pauseInv_stays:
  assumes "pauseInv b" "paused b" "unpause b = Some d" "now b + dt < d"
  shows "paused (elapse dt b)"
proof -
  from assms have "liveTimers b = [d]" by (auto simp: pauseInv_def)
  with assms(4) have "elapse dt b = b\<lparr>now := now b + dt\<rparr>" by (simp add: elapse_quiet)
  with assms(2) show ?thesis by simp
qed

lemma pauseInv_cancel:
  assumes "pauseInv b" "paused b"
  shows "\<not> paused (keyPress_p b) \<and> liveTimers (keyPress_p b) = []"
  using assms by (auto simp: pauseInv_def keyPress_p_def Let_def logEvent_def split: option.splits)

lemma keyPress_p_pauses:
  assumes "\<not> paused b"
  shows "paused (keyPress_p b) \<and> unpause (keyPress_p b) = Some (now b + unpauseDelay)
         \<and> now b + unpauseDelay \<in> set (liveTimers (keyPress_p b))"
  using assms by (simp add: keyPress_p_def Let_def logEvent_def)

text \<open>
  Claim C10.  While the engine is paused, \<open>analyzeChart\<close> calls no advisor, emits no
  \<open>DIGEST_ADVICE\<close> notification and leaves the engine as it is, so candles that arrive
  during a pause open no position.  The jobs of advice already emitted and the closing of
  positions do not read the flag: they do the same whatever its value.  The key \<open>p\<close>
  pauses an engine that is not paused and subscribes a timer of 24 hours.  In every run
  from the start, a paused engine stays paused while time passes short of the deadline of
  that timer, is unpaused once 24 hours have passed, and is unpaused by the key \<open>p\<close>,
  which leaves no timer subscribed.
\<close>

theorem C10_pause:
  "(paused b \<longrightarrow> analyzeChart an cd b = ([], b) \<and> notify an ws (ANALYZE_CHART cd) b = b)
   \<and> digestSignal w aid cid c st wh s (b\<lparr>paused := p\<rparr>)
       = (fst (digestSignal w aid cid c st wh s b), (snd (digestSignal w aid cid c st wh s b))\<lparr>paused := p\<rparr>)
   \<and> closeTrades xw (b\<lparr>paused := p\<rparr>) = (fst (closeTrades xw b), (snd (closeTrades xw b))\<lparr>paused := p\<rparr>)
   \<and> (\<not> paused b \<longrightarrow>
        paused (keyPress_p b) \<and> unpause (keyPress_p b) = Some (now b + unpauseDelay)
        \<and> now b + unpauseDelay \<in> set (liveTimers (keyPress_p b)))
   \<and> (paused (run es (started as cs fs)) \<longrightarrow>
        \<not> paused (elapse unpauseDelay (run es (started as cs fs)))
        \<and> (unpause (run es (started as cs fs)) = Some d \<and> now (run es (started as cs fs)) + dt < d
             \<longrightarrow> paused (elapse dt (run es (started as cs fs))))
        \<and> \<not> paused (keyPress_p (run es (started as cs fs)))
        \<and> liveTimers (keyPress_p (run es (started as cs fs))) = [])"
proof (intro conjI impI)
  have i: "pauseInv (run es (started as cs fs))"
    by (intro run_pauseInv started_pauseInv)
  show "digestSignal w aid cid c st wh s (b\<lparr>paused := p\<rparr>)
       = (fst (digestSignal w aid cid c st wh s b), (snd (digestSignal w aid cid c st wh s b))\<lparr>paused := p\<rparr>)"
    by (rule digestSignal_paused)
  show "closeTrades xw (b\<lparr>paused := p\<rparr>) = (fst (closeTrades xw b), (snd (closeTrades xw b))\<lparr>paused := p\<rparr>)"
    by (rule closeTrades_paused)
  {
    assume "paused b"
    then show "analyzeChart an cd b = ([], b)" "notify an ws (ANALYZE_CHART cd) b = b"
      by (rule paused_analyzeChart, rule paused_notify)
  }
  {
    assume "\<not> paused b"
    from keyPress_p_pauses [OF this]
    show "paused (keyPress_p b)" "unpause (keyPress_p b) = Some (now b + unpauseDelay)"
      "now b + unpauseDelay \<in> set (liveTimers (keyPress_p b))"
      by simp_all
  }
  {
    assume r: "paused (run es (started as cs fs))"
    from pauseInv_reverts [OF i r] show "\<not> paused (elapse unpauseDelay (run es (started as cs fs)))" .
    from pauseInv_cancel [OF i r]
    show "\<not> paused (keyPress_p (run es (started as cs fs)))"
      "liveTimers (keyPress_p (run es (started as cs fs))) = []"
      by simp_all
    assume "unpause (run es (started as cs fs)) = Some d \<and> now (run es (started as cs fs)) + dt < d"
    then show "paused (elapse dt (run es (started as cs fs)))"
      using pauseInv_stays [OF i r] by blast
  }
qed

text \<open>
  Witness: after the key \<open>p\<close> the example engine is paused with a deadline at 86400000 ms;
  a candle changes nothing; it is still paused after 86399999 ms, and unpaused after the
  delay or after the key \<open>p\<close>.
\<close>

theorem C10_pause_witness:
  "paused pausedBot
   \<and> notify eagerAnalysis (\<lambda>k j. calmWorld) (ANALYZE_CHART inProgress) pausedBot = pausedBot
   \<and> unpause pausedBot = Some 86400000
   \<and> \<not> paused (elapse unpauseDelay pausedBot)
   \<and> paused (elapse 86399999 pausedBot)
   \<and> \<not> paused (keyPress_p pausedBot)"
proof -
  have p: "paused pausedBot" "unpause pausedBot = Some 86400000" "now pausedBot + 86399999 < 86400000"
    by (simp_all add: pausedBot_def run_def step_def exited_def keyPress_p_def logEvent_def Let_def
        unpauseDelay_def ex_defs)
  have e: "\<not> paused exampleBot" by (simp add: ex_defs)
  from C10_pause [where b=pausedBot and an=eagerAnalysis and cd=inProgress and ws="\<lambda>k j. calmWorld"
         and es="[KeyP]" and as=exampleAdvisors and cs=exampleCharts and fs=exampleFunds
         and d=86400000 and dt=86399999] p
  show ?thesis by (simp add: pausedBot_def exampleBot_def)
qed

section \<open>Fatal and tolerated configurations\<close>

lemma loadCharts_calls [simp]: "calls (loadCharts cs b) = calls b"
  by (induction cs b rule: loadCharts.induct) (auto simp: logEvent_def split: option.splits)


lemma addAdvisor_calls: "addAdvisor su aid b = Inr b1 \<Longrightarrow> calls b1 = calls b"
  by (auto simp: addAdvisor_def logEvent_def split: option.splits sum.splits jsval.splits list.splits)


lemma oneAdvisor_calls [simp]: "calls (oneAdvisor su index v b) = calls b"
  by (auto simp: oneAdvisor_def logError_def addAdvisor_calls split: jsval.splits list.splits sum.splits)



lemma addAdvisors_calls [simp]: "calls (addAdvisors su index vs b) = calls b"
  by (induction vs arbitrary: index b) simp_all



lemma loadAdvisors_calls [simp]: "calls (loadAdvisors su a b) = calls b"
  by (simp add: loadAdvisors_def logError_def split: jsval.splits)



lemma announce_Inl_state: "announce options b = Inl (e, b1) \<Longrightarrow> b1 = b"
  by (cases options) (simp_all add: announce_def Let_def)




lemma exited_logError [simp]: "exited (logError e b) = exited b"
  by (simp add: exited_def)










end
